theory Spec2Isabelle
  imports Main "HOL-Library.Sublist" "HOL-Library.AList"
begin

section \<open>Strings, as the two programs use them\<close>

text \<open>
  The repository holds two variants of one program: \<^verbatim>\<open>src/unnamed/part_001\<close> (the
  single-level variant) and \<^verbatim>\<open>src/unnamed/part_000\<close> (the two-level variant, which adds
  raw asset directories, the meta bundle and the watch mode). Functions whose text is the
  same in both files are modelled once; where the text differs the definitions carry the
  suffix \<open>1\<close> (part_001) or \<open>2\<close> (part_000).

  A JavaScript string is a sequence of 16-bit code units. The model writes strings as
  \<^typ>\<open>string\<close>, so a \<^typ>\<open>char\<close> stands for a code unit below 256; among these the
  line terminators, which the regular expression atom \<^verbatim>\<open>.\<close> refuses, are line feed and
  carriage return, and the white space removed by \<^verbatim>\<open>trim\<close> is the set below.
\<close>

definition line_terminator :: "char \<Rightarrow> bool" where
  "line_terminator c = (c = CHR 0x0A \<or> c = CHR 0x0D)"

definition white_space :: "char \<Rightarrow> bool" where
  "white_space c =
     (c = CHR 0x09 \<or> c = CHR 0x0A \<or> c = CHR 0x0B \<or> c = CHR 0x0C \<or> c = CHR 0x0D \<or>
      c = CHR 0x20 \<or> c = CHR 0xA0)"

text \<open>\<^verbatim>\<open>s.trim()\<close>\<close>

definition trim :: "string \<Rightarrow> string" where
  "trim s = rev (dropWhile white_space (rev (dropWhile white_space s)))"

text \<open>\<^verbatim>\<open>s.startsWith(p)\<close>\<close>

definition startsWith :: "string \<Rightarrow> string \<Rightarrow> bool" where
  "startsWith s p = prefix p s"

text \<open>\<^verbatim>\<open>s.split(sep)\<close> for a separator of one character: never the empty list.\<close>

fun split :: "char \<Rightarrow> string \<Rightarrow> string list" where
  "split sep [] = [[]]"
| "split sep (c # cs) =
     (if c = sep then [] # split sep cs
      else (case split sep cs of [] \<Rightarrow> [[c]] | w # ws \<Rightarrow> (c # w) # ws))"

text \<open>\<^verbatim>\<open>words.join(sep)\<close>\<close>

fun join :: "string \<Rightarrow> string list \<Rightarrow> string" where
  "join sep [] = []"
| "join sep [w] = w"
| "join sep (w # v # ws) = w @ sep @ join sep (v # ws)"

text \<open>\<^verbatim>\<open>s.replace(pattern, '')\<close> for a string pattern: the first occurrence only, wherever
  it stands; an empty pattern matches at the start and removes nothing.\<close>

fun remove_first :: "string \<Rightarrow> string \<Rightarrow> string" where
  "remove_first pattern [] = []"
| "remove_first pattern (c # cs) =
     (if prefix pattern (c # cs) then drop (length pattern) (c # cs)
      else c # remove_first pattern cs)"

text \<open>\<^verbatim>\<open>s.replace(/x/g, y)\<close> for a pattern that is one literal character.\<close>

definition replace_all :: "char \<Rightarrow> char \<Rightarrow> string \<Rightarrow> string" where
  "replace_all x y s = map (\<lambda>c. if c = x then y else c) s"

text \<open>Decimal digits of a number, as a template literal prints it.\<close>

fun show_nat :: "nat \<Rightarrow> string" where
  "show_nat n =
     (if n < 10 then [''0123456789'' ! n]
      else show_nat (n div 10) @ [''0123456789'' ! (n mod 10)])"

declare show_nat.simps [simp del]

subsection \<open>The directive patterns\<close>

text \<open>
  \<^verbatim>\<open>/<!--TITLE:(.*?)-->/g.exec(markdown)\<close> on a fresh pattern object (\<^verbatim>\<open>lastIndex\<close> 0): the
  leftmost position where the opener text stands and, after it, some characters other
  than line terminators are followed by \<^verbatim>\<open>-->\<close>; the group is lazy, so it ends at
  the first \<^verbatim>\<open>-->\<close> that can close it. The result holds \<^verbatim>\<open>index\<close>, the matched text
  \<^verbatim>\<open>[0]\<close> and the group \<^verbatim>\<open>[1]\<close>.
\<close>

record exec_result =
  index :: nat
  matched :: string
  captured :: string

text \<open>\<open>lazy_group closer s\<close>: the group \<^verbatim>\<open>(.*?)\<close> followed by the closer text, matched
  at the start of \<open>s\<close>.\<close>

fun lazy_group :: "string \<Rightarrow> string \<Rightarrow> string option" where
  "lazy_group closer [] = (if closer = [] then Some [] else None)"
| "lazy_group closer (c # cs) =
     (if prefix closer (c # cs) then Some []
      else if line_terminator c then None
      else map_option (\<lambda>payload. c # payload) (lazy_group closer cs))"

text \<open>The whole pattern at the start of \<open>s\<close>.\<close>

definition match_here :: "string \<Rightarrow> string \<Rightarrow> string \<Rightarrow> string option" where
  "match_here opener closer s =
     (if prefix opener s then lazy_group closer (drop (length opener) s) else None)"

text \<open>The search: position \<open>i\<close> first, then the positions to its right.\<close>

fun exec_from :: "string \<Rightarrow> string \<Rightarrow> nat \<Rightarrow> string \<Rightarrow> exec_result option" where
  "exec_from opener closer i [] =
     (case match_here opener closer [] of
        Some payload \<Rightarrow>
          Some \<lparr>index = i, matched = opener @ payload @ closer, captured = payload\<rparr>
      | None \<Rightarrow> None)"
| "exec_from opener closer i (c # cs) =
     (case match_here opener closer (c # cs) of
        Some payload \<Rightarrow>
          Some \<lparr>index = i, matched = opener @ payload @ closer, captured = payload\<rparr>
      | None \<Rightarrow> exec_from opener closer (Suc i) cs)"

definition exec_title :: "string \<Rightarrow> exec_result option" where
  "exec_title markdown = exec_from ''<!--TITLE:'' ''-->'' 0 markdown"

definition exec_about :: "string \<Rightarrow> exec_result option" where
  "exec_about markdown = exec_from ''<!--ABOUT:'' ''-->'' 0 markdown"

text \<open>\<^verbatim>\<open>markdown.slice(0, m.index) + markdown.slice(m.index + m[0].length)\<close>\<close>

definition splice_out :: "string \<Rightarrow> exec_result \<Rightarrow> string" where
  "splice_out markdown m =
     take (index m) markdown @ drop (index m + length (matched m)) markdown"

subsection \<open>The default title\<close>

text \<open>
  \<^verbatim>\<open>word.slice(0, 1).toUpperCase() + word.slice(1)\<close>. \<^verbatim>\<open>toUpperCase\<close> is a built-in
  of the language; its value on a string of one code unit is the parameter \<open>upper\<close> (one
  code unit can become several), and on the empty string it is the empty string.
\<close>

definition capitalize :: "(char \<Rightarrow> string) \<Rightarrow> string \<Rightarrow> string" where
  "capitalize upper word = (case word of [] \<Rightarrow> [] | c # cs \<Rightarrow> upper c @ cs)"

text \<open>\<^verbatim>\<open>id.replace(/-/g, ' ').split(' ').map(word => ...).join(' ')\<close>\<close>

definition default_title :: "(char \<Rightarrow> string) \<Rightarrow> string \<Rightarrow> string" where
  "default_title upper ident =
     join '' '' (map (capitalize upper) (split CHR '' '' (replace_all CHR ''-'' CHR '' '' ident)))"

text \<open>\<^verbatim>\<open>toUpperCase\<close> on the ASCII letters, for the examples.\<close>

definition ascii_upper :: "char \<Rightarrow> string" where
  "ascii_upper c =
     (case map_of (zip ''abcdefghijklmnopqrstuvwxyz'' ''ABCDEFGHIJKLMNOPQRSTUVWXYZ'') c of
        Some u \<Rightarrow> [u]
      | None \<Rightarrow> [c])"

section \<open>Values, objects and the log\<close>

datatype error = SysError string | SyntaxError | TypeError | RangeError

text \<open>
  The logger as the programs call it: \<^verbatim>\<open>logger.info\<close>, \<^verbatim>\<open>logger.warn\<close>,
  \<^verbatim>\<open>logger.err\<close> and \<^verbatim>\<open>logger.line\<close>.
\<close>

datatype log_entry = Info string | Warn string | Err error | Line nat

text \<open>
  A value held by a mapping or returned by \<^verbatim>\<open>read\<close>: a reference to a document object,
  or (two-level variant) a string, the path of a raw directory.
\<close>

datatype jsval = Obj nat | Str string

text \<open>
  A document object: the four properties \<^verbatim>\<open>read\<close> gives it and, once \<^verbatim>\<open>build\<close> has
  assigned it, \<^verbatim>\<open>children\<close>. Objects live in a heap, a list indexed by reference, since
  \<^verbatim>\<open>build\<close> assigns \<^verbatim>\<open>children\<close> in place on the object the mapping refers to.
\<close>

record document =
  doc_id :: string
  title :: string
  about :: string
  content :: string

record obj = document +
  children :: "jsval list option"

datatype effect = WriteFile string string | CopyDir string string | MakeDir string

record world =
  heap :: "obj list"
  logged :: "log_entry list"
  effects :: "effect list"

type_synonym 'a io = "world \<Rightarrow> (error + 'a) \<times> world"

definition info :: "string \<Rightarrow> world \<Rightarrow> world" where
  "info message w = w\<lparr>logged := logged w @ [Info message]\<rparr>"

definition warn :: "string \<Rightarrow> world \<Rightarrow> world" where
  "warn message w = w\<lparr>logged := logged w @ [Warn message]\<rparr>"

definition err :: "error \<Rightarrow> world \<Rightarrow> world" where
  "err e w = w\<lparr>logged := logged w @ [Err e]\<rparr>"

definition line :: "nat \<Rightarrow> world \<Rightarrow> world" where
  "line amount w = w\<lparr>logged := logged w @ [Line amount]\<rparr>"

text \<open>A new object, as an object literal creates it.\<close>

definition alloc :: "document \<Rightarrow> world \<Rightarrow> nat \<times> world" where
  "alloc d w =
     (length (heap w),
      w\<lparr>heap := heap w @ [document.extend d (obj.fields None)]\<rparr>)"

text \<open>
  \<^verbatim>\<open>element.children = list\<close>. The files are not in strict mode, so the assignment to a
  property of a string does nothing.
\<close>

definition set_children :: "jsval \<Rightarrow> jsval list \<Rightarrow> world \<Rightarrow> world" where
  "set_children element list w =
     (case element of
        Obj r \<Rightarrow> w\<lparr>heap := (heap w)[r := (heap w ! r)\<lparr>children := Some list\<rparr>]\<rparr>
      | Str s \<Rightarrow> w)"

section \<open>The Tree Builder\<close>

text \<open>
  A Structure, as \<^verbatim>\<open>JSON.parse\<close> gives it: a string or an array of Structures.
  \<^verbatim>\<open>build\<close> uses the first element of an array as a property key, which turns an
  array into the texts of its elements joined by commas.
\<close>

datatype struct = Key string | Arr "struct list"

fun property_key :: "struct \<Rightarrow> string" where
  "property_key (Key k) = k"
| "property_key (Arr blocks) = join '','' (map property_key blocks)"

text \<open>
  \<^verbatim>\<open>store.hasOwnProperty(k)\<close>: the method is looked up on the store itself first, so a
  store with a key of that name holds a document or a string there, no function, and the
  call raises; otherwise the answer is whether the key is the store's own.
\<close>

definition hasOwnProperty :: "(string \<rightharpoonup> jsval) \<Rightarrow> string \<Rightarrow> error + bool" where
  "hasOwnProperty store k =
     (if store ''hasOwnProperty'' \<noteq> None then Inl TypeError else Inr (store k \<noteq> None))"

definition missing_child :: "string \<Rightarrow> string \<Rightarrow> string" where
  "missing_child k parent =
     ''|||| can not find child module '' @ k @ '' inside the '' @ parent @ '' module''"

text \<open>
  \<^verbatim>\<open>build(store, structure, parent)\<close>; \<open>None\<close> is \<^verbatim>\<open>null\<close>. \<open>build_blocks\<close> is
  \<^verbatim>\<open>structure.map(block => build(store, block, parent))\<close>, which stops at the first
  call that raises.
\<close>

fun build :: "(string \<rightharpoonup> jsval) \<Rightarrow> struct \<Rightarrow> string \<Rightarrow> jsval option io"
  and build_blocks :: "(string \<rightharpoonup> jsval) \<Rightarrow> struct list \<Rightarrow> string \<Rightarrow> jsval option list io"
where
  "build store (Arr []) parent w = (Inr None, w)"
| "build store (Arr (lead # rest)) parent w =
     (case hasOwnProperty store (property_key lead) of
        Inl e \<Rightarrow> (Inl e, w)
      | Inr found \<Rightarrow>
          (case store (property_key lead) of
             None \<Rightarrow> (Inr None, warn (missing_child (property_key lead) parent) w)
           | Some element \<Rightarrow>
               (case build_blocks store rest parent w of
                  (Inl e, w') \<Rightarrow> (Inl e, w')
                | (Inr built, w') \<Rightarrow>
                    (Inr (Some element),
                     set_children element (map the (filter (\<lambda>child. child \<noteq> None) built)) w'))))"
| "build store (Key k) parent w =
     (case hasOwnProperty store k of
        Inl e \<Rightarrow> (Inl e, w)
      | Inr found \<Rightarrow>
          (case store k of
             None \<Rightarrow> (Inr None, warn (missing_child k parent) w)
           | Some element \<Rightarrow> (Inr (Some element), set_children element [] w)))"
| "build_blocks store [] parent w = (Inr [], w)"
| "build_blocks store (block # blocks) parent w =
     (case build store block parent w of
        (Inl e, w') \<Rightarrow> (Inl e, w')
      | (Inr child, w') \<Rightarrow>
          (case build_blocks store blocks parent w' of
             (Inl e, w'') \<Rightarrow> (Inl e, w'')
           | (Inr built, w'') \<Rightarrow> (Inr (child # built), w'')))"

section \<open>JSON text\<close>

text \<open>The values the programs serialise: strings, numbers, arrays and objects with their
  properties in order.\<close>

datatype json = JString string | JNumber nat | JArray "json list" | JObject "(string \<times> json) list"

text \<open>
  \<^verbatim>\<open>JSON.stringify\<close> walks the value with a stack of the objects it is inside of and
  raises a \<^verbatim>\<open>TypeError\<close> when it meets one of them again (a circular structure). The
  walk from a value of the heap: a document object gives its properties in the order of
  their creation, \<^verbatim>\<open>children\<close> last and only when assigned. A reference outside the
  heap does not occur in a run; the walk answers it with the same error.
\<close>

definition own_properties :: "'a document_scheme \<Rightarrow> (string \<times> json) list" where
  "own_properties d =
     [(''id'', JString (doc_id d)), (''title'', JString (title d)),
      (''about'', JString (about d)), (''content'', JString (content d))]"

function walk :: "obj list \<Rightarrow> nat list \<Rightarrow> jsval \<Rightarrow> error + json"
  and walk_list :: "obj list \<Rightarrow> nat list \<Rightarrow> jsval list \<Rightarrow> error + json list"
where
  "walk h stack (Str s) = Inr (JString s)"
| "walk h stack (Obj r) =
     (if r \<in> set stack \<or> length h \<le> r then Inl TypeError
      else
        (case children (h ! r) of
           None \<Rightarrow> Inr (JObject (own_properties (h ! r)))
         | Some list \<Rightarrow>
             (case walk_list h (r # stack) list of
                Inl e \<Rightarrow> Inl e
              | Inr items \<Rightarrow>
                  Inr (JObject (own_properties (h ! r) @ [(''children'', JArray items)])))))"
| "walk_list h stack [] = Inr []"
| "walk_list h stack (v # vs) =
     (case walk h stack v of
        Inl e \<Rightarrow> Inl e
      | Inr item \<Rightarrow>
          (case walk_list h stack vs of
             Inl e \<Rightarrow> Inl e
           | Inr items \<Rightarrow> Inr (item # items)))"
  by pat_completeness auto
termination
proof (relation "inv_image (less_than <*lex*> less_than)
    (\<lambda>x. case x of
       Inl (h, stack, v) \<Rightarrow> (card ({..<length h} - set stack), 0)
     | Inr (h, stack, vs) \<Rightarrow> (card ({..<length h} - set stack), Suc (length vs)))",
    goal_cases)
  case 1
  show ?case
    by (intro wf_inv_image wf_lex_prod wf_less_than)
next
  case (2 h stack r list)
  then have "r \<in> {..<length h} - set stack"
    by simp
  then have "{..<length h} - set (r # stack) \<subset> {..<length h} - set stack"
    by auto
  then have "card ({..<length h} - set (r # stack)) < card ({..<length h} - set stack)"
    by (intro psubset_card_mono) auto
  then show ?case
    by simp
next
  case 3
  show ?case by simp
next
  case 4
  show ?case by simp
qed

text \<open>\<^verbatim>\<open>QuoteJSONString\<close> on code units below 256.\<close>

definition hex_digit :: "nat \<Rightarrow> char" where
  "hex_digit n = ''0123456789abcdef'' ! n"

definition quote_char :: "char \<Rightarrow> string" where
  "quote_char c =
     (if c = CHR 0x22 then [CHR 0x5C, CHR 0x22]
      else if c = CHR 0x5C then [CHR 0x5C, CHR 0x5C]
      else if c = CHR 0x08 then [CHR 0x5C, CHR ''b'']
      else if c = CHR 0x0C then [CHR 0x5C, CHR ''f'']
      else if c = CHR 0x0A then [CHR 0x5C, CHR ''n'']
      else if c = CHR 0x0D then [CHR 0x5C, CHR ''r'']
      else if c = CHR 0x09 then [CHR 0x5C, CHR ''t'']
      else if (of_char c :: nat) < 32
        then [CHR 0x5C, CHR ''u'', CHR ''0'', CHR ''0'',
              hex_digit ((of_char c :: nat) div 16), hex_digit ((of_char c :: nat) mod 16)]
      else [c])"

definition quote :: "string \<Rightarrow> string" where
  "quote s = [CHR 0x22] @ concat (map quote_char s) @ [CHR 0x22]"

text \<open>
  \<^verbatim>\<open>JSON.stringify(value, null, gap)\<close> for a gap of \<open>gap\<close> spaces (\<open>0\<close>: no gap argument);
  \<open>indent\<close> is the current indentation.
\<close>

fun serialize :: "nat \<Rightarrow> nat \<Rightarrow> json \<Rightarrow> string"
  and serialize_items :: "nat \<Rightarrow> nat \<Rightarrow> json list \<Rightarrow> string list"
  and serialize_members :: "nat \<Rightarrow> nat \<Rightarrow> (string \<times> json) list \<Rightarrow> string list"
where
  "serialize gap indent (JString s) = quote s"
| "serialize gap indent (JNumber n) = show_nat n"
| "serialize gap indent (JArray items) =
     (if items = [] then ''[]''
      else if gap = 0 then ''['' @ join '','' (serialize_items gap indent items) @ '']''
      else ''['' @ [CHR 0x0A] @ replicate (indent + gap) CHR '' '' @
           join ('','' @ [CHR 0x0A] @ replicate (indent + gap) CHR '' '')
             (serialize_items gap (indent + gap) items) @
           [CHR 0x0A] @ replicate indent CHR '' '' @ '']'')"
| "serialize gap indent (JObject members) =
     (if members = [] then ''{}''
      else if gap = 0 then ''{'' @ join '','' (serialize_members gap indent members) @ ''}''
      else ''{'' @ [CHR 0x0A] @ replicate (indent + gap) CHR '' '' @
           join ('','' @ [CHR 0x0A] @ replicate (indent + gap) CHR '' '')
             (serialize_members gap (indent + gap) members) @
           [CHR 0x0A] @ replicate indent CHR '' '' @ ''}'')"
| "serialize_items gap indent [] = []"
| "serialize_items gap indent (item # items) =
     serialize gap indent item # serialize_items gap indent items"
| "serialize_members gap indent [] = []"
| "serialize_members gap indent ((k, v) # members) =
     (quote k @ '':'' @ (if gap = 0 then [] else '' '') @ serialize gap indent v)
       # serialize_members gap indent members"

definition JSON_stringify :: "nat \<Rightarrow> json \<Rightarrow> string" where
  "JSON_stringify gap v = serialize gap 0 v"

section \<open>Paths, the file system and the capabilities\<close>

text \<open>
  Node's \<^verbatim>\<open>path\<close> module follows the platform. Every path the programs build is
  \<^verbatim>\<open>path.join(a, b)\<close> of a path \<open>a\<close> in normal form and a name \<open>b\<close> that
  \<^verbatim>\<open>readdir\<close> listed (or a file name made from one): the join is \<open>a\<close>, the
  platform's separator unless \<open>a\<close> ends with one, and \<open>b\<close>; joined to \<^verbatim>\<open>.\<close> it is
  \<open>b\<close> alone.
\<close>

datatype platform = Posix | Win32

definition separator :: "platform \<Rightarrow> char" where
  "separator pf = (case pf of Posix \<Rightarrow> CHR ''/'' | Win32 \<Rightarrow> CHR 0x5C)"

definition is_separator :: "platform \<Rightarrow> char \<Rightarrow> bool" where
  "is_separator pf c = (c = CHR ''/'' \<or> (pf = Win32 \<and> c = CHR 0x5C))"

definition path_join :: "platform \<Rightarrow> string \<Rightarrow> string \<Rightarrow> string" where
  "path_join pf a b =
     (if a = [] \<or> a = ''.'' then b
      else if is_separator pf (last a) then a @ b
      else a @ [separator pf] @ b)"

text \<open>\<^verbatim>\<open>path.basename(p)\<close>: the text after the last separator, trailing separators
  aside.\<close>

definition basename :: "platform \<Rightarrow> string \<Rightarrow> string" where
  "basename pf p =
     rev (takeWhile (\<lambda>c. \<not> is_separator pf c) (dropWhile (is_separator pf) (rev p)))"

text \<open>
  \<^verbatim>\<open>path.basename(p, '.md')\<close>: the extension is cut from the base name unless it is the
  whole base name; when the path itself is \<^verbatim>\<open>.md\<close> the result is empty.
\<close>

definition basename_md :: "platform \<Rightarrow> string \<Rightarrow> string" where
  "basename_md pf p =
     (if p = ''.md'' then []
      else if basename pf p \<noteq> ''.md'' \<and> suffix ''.md'' (basename pf p)
        then take (length (basename pf p) - 3) (basename pf p)
      else basename pf p)"

text \<open>What a path names: a file with its text, or a directory with the names
  \<^verbatim>\<open>readdir\<close> lists, in its order.\<close>

datatype entry = File string | Directory "string list"

text \<open>
  The surroundings of a run: the platform, the file system as the run finds it, the
  built-ins and libraries the programs call (\<^verbatim>\<open>md.render\<close>, \<^verbatim>\<open>toUpperCase\<close> on one
  code unit, \<^verbatim>\<open>toLowerCase\<close>, \<^verbatim>\<open>JSON.parse\<close> of a manifest, with \<open>None\<close> for a
  \<^verbatim>\<open>SyntaxError\<close>, \<^verbatim>\<open>magic.detectFile\<close>, \<^verbatim>\<open>sizeOf\<close> with the properties of the object
  it returns), the outcome of each output operation (\<open>None\<close>: done; \<open>Some e\<close>: rejected
  with \<open>e\<close>) and the answer to the prompt.
\<close>

record env =
  platform :: platform
  files :: "string \<Rightarrow> entry option"
  render :: "string \<Rightarrow> string"
  toUpperCase :: "char \<Rightarrow> string"
  toLowerCase :: "string \<Rightarrow> string"
  JSON_parse :: "string \<Rightarrow> struct option"
  detectFile :: "string \<Rightarrow> error + string"
  sizeOf :: "string \<Rightarrow> error + (string \<times> json) list"
  mkdir :: "string \<Rightarrow> error option"
  writeFile :: "string \<Rightarrow> error option"
  copy :: "string \<Rightarrow> string \<Rightarrow> error option"
  confirmation :: bool

text \<open>
  \<^verbatim>\<open>options\<close>. \<open>exclude_regexp\<close> is \<^verbatim>\<open>options.exclude\<close> as a test on a string;
  \<open>directory\<close> is \<^verbatim>\<open>options.directory\<close> in normal form (\<^verbatim>\<open>path.join\<close> and
  \<^verbatim>\<open>path.normalize\<close> both bring it into that form before use). \<open>static\<close>, \<open>confirm\<close>
  and \<open>watch\<close> are read by the two-level variant only.
\<close>

record options =
  exclude_regexp :: "string \<Rightarrow> bool"
  directory :: string
  target :: string
  static :: string
  confirm :: bool
  watch :: bool

text \<open>The default pattern \<^verbatim>\<open>node_modules|^[.]\<close>.\<close>

definition default_exclude :: "string \<Rightarrow> bool" where
  "default_exclude s = (sublist ''node_modules'' s \<or> prefix ''.'' s)"

text \<open>\<^verbatim>\<open>exclude(location)\<close>\<close>

definition exclude :: "env \<Rightarrow> options \<Rightarrow> string \<Rightarrow> bool" where
  "exclude env opts location = exclude_regexp opts (basename (platform env) location)"

text \<open>\<^verbatim>\<open>error.code\<close>\<close>

fun code :: "error \<Rightarrow> string option" where
  "code (SysError c) = Some c"
| "code e = None"

text \<open>\<^verbatim>\<open>(await fs.stat(p)).isDirectory()\<close>, \<^verbatim>\<open>fs.readdir(p)\<close>, \<^verbatim>\<open>fs.readFile(p)\<close>\<close>

definition stat :: "env \<Rightarrow> string \<Rightarrow> error + bool" where
  "stat env p =
     (case files env p of
        None \<Rightarrow> Inl (SysError ''ENOENT'')
      | Some (File body) \<Rightarrow> Inr False
      | Some (Directory names) \<Rightarrow> Inr True)"

definition readdir :: "env \<Rightarrow> string \<Rightarrow> error + string list" where
  "readdir env p =
     (case files env p of
        None \<Rightarrow> Inl (SysError ''ENOENT'')
      | Some (File body) \<Rightarrow> Inl (SysError ''ENOTDIR'')
      | Some (Directory names) \<Rightarrow> Inr names)"

definition readFile :: "env \<Rightarrow> string \<Rightarrow> error + string" where
  "readFile env p =
     (case files env p of
        None \<Rightarrow> Inl (SysError ''ENOENT'')
      | Some (File body) \<Rightarrow> Inr body
      | Some (Directory names) \<Rightarrow> Inl (SysError ''EISDIR''))"

text \<open>\<^verbatim>\<open>fs.mkdir(p)\<close>, \<^verbatim>\<open>fs.writeFile(p, body)\<close>, \<^verbatim>\<open>fs.copy(from, to)\<close>: what was done
  is recorded in the world.\<close>

definition make_dir :: "env \<Rightarrow> string \<Rightarrow> unit io" where
  "make_dir env p w =
     (case mkdir env p of
        None \<Rightarrow> (Inr (), w\<lparr>effects := effects w @ [MakeDir p]\<rparr>)
      | Some e \<Rightarrow> (Inl e, w))"

definition write_file :: "env \<Rightarrow> string \<Rightarrow> string \<Rightarrow> unit io" where
  "write_file env p body w =
     (case writeFile env p of
        None \<Rightarrow> (Inr (), w\<lparr>effects := effects w @ [WriteFile p body]\<rparr>)
      | Some e \<Rightarrow> (Inl e, w))"

definition copy_dir :: "env \<Rightarrow> string \<Rightarrow> string \<Rightarrow> unit io" where
  "copy_dir env p q w =
     (case copy env p q of
        None \<Rightarrow> (Inr (), w\<lparr>effects := effects w @ [CopyDir p q]\<rparr>)
      | Some e \<Rightarrow> (Inl e, w))"

section \<open>Promises\<close>

text \<open>
  \<^verbatim>\<open>list.map(f)\<close> over calls that return promises: every call is started, and each
  runs to its end whatever becomes of the others. The branches only read the file system
  and append to the log, so the model runs them one after the other in the order of the
  list. \<^verbatim>\<open>Promise.all\<close> is fulfilled with all the values, or rejected as soon as one
  branch is; of several rejections the model reports the first in the order of the list
  (JavaScript: the first in time).
\<close>

fun fan_out :: "('a \<Rightarrow> 'b io) \<Rightarrow> 'a list \<Rightarrow> world \<Rightarrow> (error + 'b) list \<times> world" where
  "fan_out f [] w = ([], w)"
| "fan_out f (x # xs) w =
     (case f x w of
        (r, w') \<Rightarrow> (case fan_out f xs w' of (rs, w'') \<Rightarrow> (r # rs, w'')))"

fun promise_all :: "(error + 'b) list \<Rightarrow> error + 'b list" where
  "promise_all [] = Inr []"
| "promise_all (Inl e # rs) = Inl e"
| "promise_all (Inr v # rs) =
     (case promise_all rs of Inl e \<Rightarrow> Inl e | Inr vs \<Rightarrow> Inr (v # vs))"

text \<open>\<^verbatim>\<open>promise.catch(handler)\<close>, and \<^verbatim>\<open>try { await promise } catch (error) { ... }\<close>\<close>

definition catch :: "(error + 'a) \<times> world \<Rightarrow> (error \<Rightarrow> 'a io) \<Rightarrow> (error + 'a) \<times> world" where
  "catch outcome handler =
     (case outcome of (Inl e, w) \<Rightarrow> handler e w | (Inr v, w) \<Rightarrow> (Inr v, w))"

section \<open>The Markdown Reader\<close>

text \<open>
  The body of \<^verbatim>\<open>read\<close> from the text of the file on: the title directive or the
  default title, the about directive or the empty string, each directive cut from the
  text, the rest rendered and trimmed.
\<close>

definition extract_title :: "(char \<Rightarrow> string) \<Rightarrow> string \<Rightarrow> string \<Rightarrow> string \<times> string" where
  "extract_title upper ident markdown =
     (case exec_title markdown of
        Some m \<Rightarrow> (captured m, splice_out markdown m)
      | None \<Rightarrow> (default_title upper ident, markdown))"

definition extract_about :: "string \<Rightarrow> string \<times> string" where
  "extract_about markdown =
     (case exec_about markdown of
        Some m \<Rightarrow> (captured m, splice_out markdown m)
      | None \<Rightarrow> ([], markdown))"

definition read_markdown :: "env \<Rightarrow> string \<Rightarrow> string \<Rightarrow> document" where
  "read_markdown env ident markdown =
     (case extract_title (toUpperCase env) ident markdown of
        (the_title, markdown') \<Rightarrow>
          (case extract_about markdown' of
             (the_about, markdown'') \<Rightarrow>
               \<lparr>doc_id = ident, title = the_title, about = the_about,
                content = trim (render env markdown'')\<rparr>))"

text \<open>\<^verbatim>\<open>read(location)\<close> of part_001: no look at what the path names before
  \<^verbatim>\<open>readFile\<close>.\<close>

definition read1 :: "env \<Rightarrow> string \<Rightarrow> jsval io" where
  "read1 env location w =
     (case readFile env location of
        Inl e \<Rightarrow> (Inl e, info (''|| reading '' @ location) w)
      | Inr markdown \<Rightarrow>
          (case alloc (read_markdown env (basename_md (platform env) location) markdown)
                  (info (''|| reading '' @ location) w) of
             (r, w') \<Rightarrow> (Inr (Obj r), w')))"

text \<open>\<^verbatim>\<open>read(location)\<close> of part_000: a directory is answered with its path.\<close>

definition read2 :: "env \<Rightarrow> string \<Rightarrow> jsval io" where
  "read2 env location w =
     (case stat env location of
        Inl e \<Rightarrow> (Inl e, info (''|| reading '' @ location) w)
      | Inr is_directory \<Rightarrow>
          (if is_directory then (Inr (Str location), info (''|| reading '' @ location) w)
           else read1 env location w))"

section \<open>The Content Resolver\<close>

text \<open>
  A mapping is an object used as a table: its own properties in the order of their
  creation. (JavaScript lists keys that are array indices first; the programs list a
  mapping only to pick its raw directories, whose keys hold a separator or a dot.)
  \<^verbatim>\<open>map[k] = v\<close> creates or overwrites the property, except for the key
  \<^verbatim>\<open>__proto__\<close>, which names the prototype and leaves the own properties as they are.
\<close>

type_synonym mapping = "(string \<times> jsval) list"

definition property_set :: "string \<Rightarrow> jsval \<Rightarrow> mapping \<Rightarrow> mapping" where
  "property_set k v m = (if k = ''__proto__'' then m else AList.update k v m)"

text \<open>\<^verbatim>\<open>!!v\<close>\<close>

fun truthy :: "jsval \<Rightarrow> bool" where
  "truthy (Obj r) = True"
| "truthy (Str s) = (s \<noteq> [])"

text \<open>\<^verbatim>\<open>resolve(location)\<close> of part_001.\<close>

definition resolve1 :: "env \<Rightarrow> options \<Rightarrow> string \<Rightarrow> mapping io" where
  "resolve1 env opts location w =
     (case readdir env location of
        Inl e \<Rightarrow> (Inl e, w)
      | Inr listing \<Rightarrow>
          (case fan_out (\<lambda>file. read1 env (path_join (platform env) location file))
                  (filter (\<lambda>file. \<not> exclude env opts file) listing)
                  (info (''| traversing '' @ location @ '' | contents.length = '' @
                     show_nat (length (filter (\<lambda>file. \<not> exclude env opts file) listing))) w) of
             (started, w') \<Rightarrow>
               (case promise_all started of
                  Inl e \<Rightarrow> (Inl e, w')
                | Inr results \<Rightarrow>
                    (Inr (foldl (\<lambda>map (file, v). property_set (basename_md (platform env) file) v map) []
                            (filter (\<lambda>(file, v). truthy v)
                               (zip (filter (\<lambda>file. \<not> exclude env opts file) listing) results))),
                     w'))))"

text \<open>The key of a raw directory in part_000: \<^verbatim>\<open>path.normalize(options.directory)\<close>
  removed where it first stands, a leading backslash removed, every backslash turned into
  a dot.\<close>

definition directory_key :: "options \<Rightarrow> string \<Rightarrow> string" where
  "directory_key opts location =
     replace_all (CHR 0x5C) CHR ''.''
       (if startsWith (remove_first (directory opts) location) [CHR 0x5C]
        then drop 1 (remove_first (directory opts) location)
        else remove_first (directory opts) location)"

text \<open>\<^verbatim>\<open>resolve(location)\<close> of part_000.\<close>

definition resolve2 :: "env \<Rightarrow> options \<Rightarrow> string \<Rightarrow> mapping io" where
  "resolve2 env opts location w =
     (case readdir env location of
        Inl e \<Rightarrow> (Inl e, w)
      | Inr listing \<Rightarrow>
          (case fan_out (\<lambda>file. read2 env (path_join (platform env) location file))
                  (filter (\<lambda>file. \<not> exclude env opts file) listing)
                  (info (''| traversing '' @ location @ '' | contents.length = '' @
                     show_nat (length (filter (\<lambda>file. \<not> exclude env opts file) listing))) w) of
             (started, w') \<Rightarrow>
               (case promise_all started of
                  Inl e \<Rightarrow> (Inl e, w')
                | Inr results \<Rightarrow>
                    (Inr (foldl (\<lambda>map (file, v).
                                  (case v of
                                     Obj r \<Rightarrow> property_set (basename_md (platform env) file) v map
                                   | Str s \<Rightarrow> property_set (directory_key opts s) v map)) []
                            (filter (\<lambda>(file, v). truthy v)
                               (zip (filter (\<lambda>file. \<not> exclude env opts file) listing) results))),
                     w'))))"

section \<open>Traversal Guard, Module Explorer, Crawler\<close>

text \<open>\<^verbatim>\<open>traverse(location, action)\<close>; \<open>None\<close> is the skip signal \<^verbatim>\<open>false\<close>.\<close>

definition traverse :: "env \<Rightarrow> options \<Rightarrow> string \<Rightarrow> (string \<Rightarrow> 'a option io) \<Rightarrow> 'a option io" where
  "traverse env opts location action w =
     (if exclude env opts location then (Inr None, warn (''excluding  '' @ location) w)
      else
        (case stat env location of
           Inl e \<Rightarrow> (Inl e, w)
         | Inr is_directory \<Rightarrow>
             (if \<not> is_directory then (Inr None, w) else action location w)))"

text \<open>The result of \<^verbatim>\<open>explore\<close>: \<^verbatim>\<open>{mappings, structure}\<close>.\<close>

record module_result =
  mappings :: mapping
  manifest :: struct

text \<open>\<^verbatim>\<open>Object.assign(target, source)\<close>\<close>

definition object_assign :: "mapping \<Rightarrow> mapping \<Rightarrow> mapping" where
  "object_assign goal source = foldl (\<lambda>map (k, v). property_set k v map) goal source"

text \<open>An action whose result is always an object, never the skip signal.\<close>

definition present :: "'a io \<Rightarrow> 'a option io" where
  "present action w =
     (case action w of (Inl e, w') \<Rightarrow> (Inl e, w') | (Inr v, w') \<Rightarrow> (Inr (Some v), w'))"

text \<open>
  \<^verbatim>\<open>explore(location)\<close>. Its text is the same in both files; \<open>resolve\<close> is the
  \<^verbatim>\<open>resolve\<close> of the file, which always returns a mapping.
\<close>

definition explore ::
  "(env \<Rightarrow> options \<Rightarrow> string \<Rightarrow> mapping io) \<Rightarrow> env \<Rightarrow> options \<Rightarrow> string \<Rightarrow> module_result option io"
where
  "explore resolve env opts location w =
     (case readdir env location of
        Inl e \<Rightarrow> (Inl e, w)
      | Inr listing \<Rightarrow>
          (if ''structure.json'' \<notin> set (filter (\<lambda>file. \<not> exclude env opts file) listing)
           then (Inr None, warn (''excluding  '' @ location @ '' | missing structure.json'') w)
           else
             (case readFile env (path_join (platform env) location ''structure.json'') of
                Inl e \<Rightarrow> (Inl e, w)
              | Inr body \<Rightarrow>
                  (case JSON_parse env body of
                     None \<Rightarrow> (Inl SyntaxError, w)
                   | Some parsed \<Rightarrow>
                       (case fan_out
                               (\<lambda>file. traverse env opts (path_join (platform env) location file)
                                  (\<lambda>l. present (resolve env opts l)))
                               (remove1 ''structure.json''
                                  (filter (\<lambda>file. \<not> exclude env opts file) listing))
                               (info (''traversing '' @ location @ '' | contents.length = '' @
                                  show_nat (length (remove1 ''structure.json''
                                    (filter (\<lambda>file. \<not> exclude env opts file) listing)))) w) of
                          (started, w') \<Rightarrow>
                            (case promise_all started of
                               Inl e \<Rightarrow> (Inl e, w')
                             | Inr results \<Rightarrow>
                                 (Inr (Some \<lparr>mappings =
                                               foldl object_assign []
                                                 (map the (filter (\<lambda>r. r \<noteq> None) results)),
                                             manifest = parsed\<rparr>),
                                  w')))))))"

text \<open>
  \<^verbatim>\<open>crawl()\<close>. \<open>emit\<close> is the \<^verbatim>\<open>emit\<close> of the file. The callback of \<^verbatim>\<open>then\<close> runs
  only when every exploration is fulfilled; it starts one \<^verbatim>\<open>emit\<close> per module that was
  not skipped and returns their promises without waiting for them, so \<^verbatim>\<open>crawl\<close> is
  fulfilled with the list of what becomes of each.
\<close>

definition crawl ::
  "(env \<Rightarrow> options \<Rightarrow> string \<Rightarrow> mapping io) \<Rightarrow>
   (env \<Rightarrow> options \<Rightarrow> string \<Rightarrow> module_result \<Rightarrow> unit io) \<Rightarrow>
   env \<Rightarrow> options \<Rightarrow> (error + unit) list io"
where
  "crawl resolve emit env opts w =
     (case readdir env (directory opts) of
        Inl e \<Rightarrow> (Inl e, w)
      | Inr modules \<Rightarrow>
          (case fan_out
                  (\<lambda>module. traverse env opts (path_join (platform env) (directory opts) module)
                     (explore resolve env opts))
                  modules w of
             (started, w') \<Rightarrow>
               (case promise_all started of
                  Inl e \<Rightarrow> (Inl e, w')
                | Inr results \<Rightarrow>
                    (case fan_out (\<lambda>(module, result). emit env opts module (the result))
                            (filter (\<lambda>(module, result). result \<noteq> None) (zip modules results))
                            (line 0 w') of
                       (emitted, w'') \<Rightarrow> (Inr emitted, w'')))))"

section \<open>The Emitter\<close>

text \<open>
  \<^verbatim>\<open>contents.structure.map(block => build(contents.mappings, block, module))
  .filter(child => child !== null)\<close>: a manifest that is a string has no \<^verbatim>\<open>map\<close>, and
  the call raises.
\<close>

definition build_forest :: "mapping \<Rightarrow> struct \<Rightarrow> string \<Rightarrow> jsval list io" where
  "build_forest store parsed module w =
     (case parsed of
        Key k \<Rightarrow> (Inl TypeError, w)
      | Arr blocks \<Rightarrow>
          (case build_blocks (map_of store) blocks module w of
             (Inl e, w') \<Rightarrow> (Inl e, w')
           | (Inr built, w') \<Rightarrow> (Inr (map the (filter (\<lambda>child. child \<noteq> None) built)), w')))"

text \<open>\<^verbatim>\<open>JSON.stringify(model, null, 2)\<close> of the array of built nodes.\<close>

definition stringify_model :: "obj list \<Rightarrow> jsval list \<Rightarrow> error + string" where
  "stringify_model h model =
     (case walk_list h [] model of
        Inl e \<Rightarrow> Inl e
      | Inr items \<Rightarrow> Inr (JSON_stringify 2 (JArray items)))"

text \<open>The creation of the output directory in \<^verbatim>\<open>emit\<close> of part_001:
  \<^verbatim>\<open>try { await fs.mkdir(options.target) } catch (error)
  { if (error.code !== 'EEXIST') throw error }\<close>.\<close>

definition make_target1 :: "env \<Rightarrow> options \<Rightarrow> unit io" where
  "make_target1 env opts w =
     catch (make_dir env (target opts) w)
       (\<lambda>error w. if code error \<noteq> Some ''EEXIST'' then (Inl error, w) else (Inr (), w))"

text \<open>\<^verbatim>\<open>emit(module, contents)\<close> of part_001.\<close>

definition emit1 :: "env \<Rightarrow> options \<Rightarrow> string \<Rightarrow> module_result \<Rightarrow> unit io" where
  "emit1 env opts module contents w =
     (case build_forest (mappings contents) (manifest contents) module
             (info (''||| emitting '' @ path_join (platform env) (target opts) (module @ ''.json'')) w) of
        (Inl e, w') \<Rightarrow> (Inl e, w')
      | (Inr model, w') \<Rightarrow>
          (case stringify_model (heap w') model of
             Inl e \<Rightarrow> (Inl e, w')
           | Inr result \<Rightarrow>
               (case make_target1 env opts w' of
                  (Inl e, w'') \<Rightarrow> (Inl e, w'')
                | (Inr u, w'') \<Rightarrow>
                    (case write_file env (path_join (platform env) (target opts) (module @ ''.json''))
                            result w'' of
                       (Inl e, w''') \<Rightarrow> (Inl e, w''')
                     | (Inr u, w''') \<Rightarrow>
                         (Inr (),
                          info (''|||| '' @ show_nat (length model) @ '' sections emitted at '' @
                                path_join (platform env) (target opts) (module @ ''.json'')) w''')))))"

subsection \<open>Asset metadata (part_000)\<close>

record asset =
  asset_key :: string
  asset_type :: string
  asset_size :: "(string \<times> json) list option"

text \<open>One asset of a raw directory: a failed detection is logged and gives the empty
  type; \<^verbatim>\<open>sizeOf\<close> is called for image types and may raise.\<close>

definition probe :: "env \<Rightarrow> string \<Rightarrow> string \<Rightarrow> asset io" where
  "probe env dir name w =
     (case detectFile env (path_join (platform env) dir name) of
        Inl e \<Rightarrow>
          (Inr \<lparr>asset_key = toLowerCase env (path_join (platform env) (basename (platform env) dir) name),
                asset_type = [], asset_size = None\<rparr>,
           err e w)
      | Inr detected \<Rightarrow>
          (if startsWith detected ''image''
           then (case sizeOf env (path_join (platform env) dir name) of
                   Inl e \<Rightarrow> (Inl e, w)
                 | Inr dims \<Rightarrow>
                     (Inr \<lparr>asset_key = toLowerCase env
                                          (path_join (platform env) (basename (platform env) dir) name),
                           asset_type = detected, asset_size = Some dims\<rparr>,
                      w))
           else (Inr \<lparr>asset_key = toLowerCase env
                                     (path_join (platform env) (basename (platform env) dir) name),
                      asset_type = detected, asset_size = None\<rparr>,
                 w)))"

text \<open>\<^verbatim>\<open>fs.readdir(dir).then(assets => Promise.all(assets.map(...)))\<close>\<close>

definition probe_dir :: "env \<Rightarrow> string \<Rightarrow> asset list io" where
  "probe_dir env dir w =
     (case readdir env dir of
        Inl e \<Rightarrow> (Inl e, w)
      | Inr assets \<Rightarrow>
          (case fan_out (probe env dir) assets w of (started, w') \<Rightarrow> (promise_all started, w')))"

text \<open>A value inside a template literal.\<close>

fun template :: "json \<Rightarrow> string" where
  "template (JString s) = s"
| "template (JNumber n) = show_nat n"
| "template (JArray items) = join '','' (map template items)"
| "template (JObject members) = ''[object Object]''"

definition template_property :: "(string \<times> json) list \<Rightarrow> string \<Rightarrow> string" where
  "template_property members name =
     (case map_of members name of None \<Rightarrow> ''undefined'' | Some v \<Rightarrow> template v)"

text \<open>\<^verbatim>\<open>keys.map(key => key.length).sort()[0]\<close>: the default sort compares the numbers
  as their decimal texts.\<close>

fun text_less :: "string \<Rightarrow> string \<Rightarrow> bool" where
  "text_less [] [] = False"
| "text_less [] (y # ys) = True"
| "text_less (x # xs) [] = False"
| "text_less (x # xs) (y # ys) =
     ((of_char x :: nat) < of_char y \<or> (x = y \<and> text_less xs ys))"

definition sort_first :: "nat list \<Rightarrow> nat" where
  "sort_first ns =
     foldl (\<lambda>least n. if text_less (show_nat n) (show_nat least) then n else least) (hd ns) (tl ns)"

definition asset_line :: "nat \<Rightarrow> string \<times> asset \<Rightarrow> string" where
  "asset_line maxLength item =
     fst item @ replicate (maxLength - length (fst item)) CHR '' '' @ '' | type = '' @
     asset_type (snd item) @ '' '' @
     (case asset_size (snd item) of
        None \<Rightarrow> []
      | Some dims \<Rightarrow>
          ''| width = '' @ template_property dims ''width'' @ '' | height = '' @
          template_property dims ''height'')"

text \<open>
  The log line about the collected properties. \<^verbatim>\<open>' '.repeat(n)\<close> raises a
  \<^verbatim>\<open>RangeError\<close> for a negative \<open>n\<close>, that is, for a key more than 50 longer than the
  length the sort puts first.
\<close>

definition announce :: "string \<Rightarrow> (string \<times> asset) list \<Rightarrow> unit io" where
  "announce metaTarget meta w =
     (if meta = [] then (Inr (), w)
      else if \<exists>item \<in> set meta. sort_first (map (\<lambda>item. length (fst item)) meta) + 50 < length (fst item)
        then (Inl RangeError, w)
      else
        (Inr (),
         info (''||||| '' @ show_nat (length meta) @ '' properties to emit at '' @ metaTarget @
               ''| assets = ['' @ [CHR 0x0A, CHR 0x09] @ ''| > '' @
               join ('','' @ [CHR 0x0A, CHR 0x09] @ ''| > '')
                 (map (asset_line (sort_first (map (\<lambda>item. length (fst item)) meta) + 50)) meta) @
               '']'') w))"

text \<open>The asset as \<^verbatim>\<open>JSON.stringify\<close> sees it: \<^verbatim>\<open>{key, type, size}\<close>, an undefined
  \<^verbatim>\<open>size\<close> left out.\<close>

definition asset_json :: "asset \<Rightarrow> json" where
  "asset_json a =
     JObject ([(''key'', JString (asset_key a)), (''type'', JString (asset_type a))] @
              (case asset_size a of None \<Rightarrow> [] | Some dims \<Rightarrow> [(''size'', JObject dims)]))"

text \<open>
  The block under \<^verbatim>\<open>if (move.length > 0)\<close>, with \<^verbatim>\<open>meta\<close> as its result. A rejected
  probe is caught by \<^verbatim>\<open>.catch(error => logger.err(error))\<close>, which leaves
  \<^verbatim>\<open>assetInformation\<close> undefined, and \<^verbatim>\<open>assetInformation.reduce\<close> raises.
\<close>

definition collect_meta :: "env \<Rightarrow> options \<Rightarrow> string \<Rightarrow> string list \<Rightarrow> (string \<times> asset) list io" where
  "collect_meta env opts metaTarget move w =
     (if move = [] then (Inr [], w)
      else
        (case fan_out (probe_dir env) move
                (info ''||| moving static contents, collecting meta data'' w) of
           (started, w') \<Rightarrow>
             (case promise_all started of
                Inl e \<Rightarrow> (Inl TypeError, err e w')
              | Inr assetInformation \<Rightarrow>
                  (case announce metaTarget
                          (foldl (\<lambda>meta assets. foldl (\<lambda>meta a. AList.update (asset_key a) a meta) meta assets)
                             [] assetInformation) w' of
                     (Inl e, w'') \<Rightarrow> (Inl e, w'')
                   | (Inr u, w'') \<Rightarrow>
                       (case fan_out
                               (\<lambda>dir. copy_dir env dir
                                  (path_join (platform env) (static opts) (basename (platform env) dir)))
                               move w'' of
                          (copies, w''') \<Rightarrow>
                            (case promise_all copies of
                               Inl e \<Rightarrow> (Inl e, w''')
                             | Inr finished \<Rightarrow>
                                 (Inr (foldl (\<lambda>meta assets.
                                          foldl (\<lambda>meta a. AList.update (asset_key a) a meta) meta assets)
                                        [] assetInformation),
                                  w''')))))))"

text \<open>\<^verbatim>\<open>Object.values(contents.mappings).filter(value => typeof value === 'string')\<close>\<close>

fun raw_directories :: "mapping \<Rightarrow> string list" where
  "raw_directories [] = []"
| "raw_directories ((k, Str s) # m) = s # raw_directories m"
| "raw_directories ((k, Obj r) # m) = raw_directories m"

text \<open>\<^verbatim>\<open>emit(module, contents)\<close> of part_000.\<close>

definition emit2 :: "env \<Rightarrow> options \<Rightarrow> string \<Rightarrow> module_result \<Rightarrow> unit io" where
  "emit2 env opts module contents w =
     (case build_forest (mappings contents) (manifest contents) module
             (info (''||| emitting '' @ path_join (platform env) (target opts) (module @ ''.json'')) w) of
        (Inl e, w') \<Rightarrow> (Inl e, w')
      | (Inr model, w') \<Rightarrow>
          (case stringify_model (heap w') model of
             Inl e \<Rightarrow> (Inl e, w')
           | Inr result \<Rightarrow>
               (case collect_meta env opts
                       (path_join (platform env) (target opts) (module @ ''.meta.json''))
                       (raw_directories (mappings contents)) w' of
                  (Inl e, w'') \<Rightarrow> (Inl e, w'')
                | (Inr meta, w'') \<Rightarrow>
                    (case fan_out (\<lambda>(p, body). write_file env p body)
                            [(path_join (platform env) (target opts) (module @ ''.json''), result),
                             (path_join (platform env) (target opts) (module @ ''.meta.json''),
                              JSON_stringify 0 (JObject (map (\<lambda>(k, a). (k, asset_json a)) meta)))]
                            w'' of
                       (started, w''') \<Rightarrow>
                         (case promise_all started of
                            Inl e \<Rightarrow> (Inl e, w''')
                          | Inr finished \<Rightarrow>
                              (Inr (),
                               info (''|||| '' @ show_nat (length model) @ '' sections emitted at '' @
                                     path_join (platform env) (target opts) (module @ ''.json'')) w'''))))))"

section \<open>The run\<close>

text \<open>\<^verbatim>\<open>run()\<close> of part_001, and the last line of the file,
  \<^verbatim>\<open>run().catch(logger.err)\<close>.\<close>

definition run1 :: "env \<Rightarrow> options \<Rightarrow> unit io" where
  "run1 env opts w =
     (if \<not> confirmation env then (Inr (), line 0 w)
      else
        (case crawl resolve1 emit1 env opts (line 0 w) of
           (Inl e, w') \<Rightarrow> (Inl e, w')
         | (Inr emitted, w') \<Rightarrow> (Inr (), w')))"

definition main1 :: "env \<Rightarrow> options \<Rightarrow> world \<Rightarrow> world" where
  "main1 env opts w = (case run1 env opts w of (Inl e, w') \<Rightarrow> err e w' | (Inr u, w') \<Rightarrow> w')"

text \<open>
  The same step in \<^verbatim>\<open>run()\<close> of part_000:
  \<^verbatim>\<open>try { await fs.mkdir(options.target).catch(error => { }) } catch (error)
  { if (error.code !== 'EEXIST') throw error }\<close>.
\<close>

definition make_target2 :: "env \<Rightarrow> options \<Rightarrow> unit io" where
  "make_target2 env opts w =
     catch (catch (make_dir env (target opts) w) (\<lambda>error w. (Inr (), w)))
       (\<lambda>error w. if code error \<noteq> Some ''EEXIST'' then (Inl error, w) else (Inr (), w))"

text \<open>
  \<^verbatim>\<open>run()\<close> of part_000; after a confirmed prompt it sets \<^verbatim>\<open>options.confirm\<close>, which
  later runs of the watch mode read, so the options are part of the result.
\<close>

definition run2 :: "env \<Rightarrow> options \<Rightarrow> world \<Rightarrow> (error + unit) \<times> options \<times> world" where
  "run2 env opts w =
     (if \<not> confirm opts \<and> \<not> confirmation env then (Inr (), opts, line 0 w)
      else
        (case make_target2 env opts (if \<not> confirm opts then line 0 w else w) of
           (Inl e, w') \<Rightarrow> (Inl e, opts\<lparr>confirm := True\<rparr>, w')
         | (Inr u, w') \<Rightarrow>
             (case crawl resolve2 emit2 env opts w' of
                (Inl e, w'') \<Rightarrow> (Inl e, opts\<lparr>confirm := True\<rparr>, w'')
              | (Inr emitted, w'') \<Rightarrow> (Inr (), opts\<lparr>confirm := True\<rparr>, w''))))"

definition main2 :: "env \<Rightarrow> options \<Rightarrow> world \<Rightarrow> world" where
  "main2 env opts w =
     (case run2 env opts (info (''will watch '' @ directory opts @ '' for changes'') w) of
        (Inl e, opts', w') \<Rightarrow> err e w'
      | (Inr u, opts', w') \<Rightarrow> w')"

section \<open>Reference definitions, in the words of the specification\<close>

text \<open>
  The default title as the specification words it: every hyphen of the stem becomes a
  space, and the first character of every word is upper-cased. \<open>at_start\<close> tells
  whether the next character starts a word.
\<close>

fun spec_title :: "(char \<Rightarrow> string) \<Rightarrow> bool \<Rightarrow> string \<Rightarrow> string" where
  "spec_title upper at_start [] = []"
| "spec_title upper at_start (c # cs) =
     (if c = CHR ''-'' \<or> c = CHR '' '' then CHR '' '' # spec_title upper True cs
      else (if at_start then upper c else [c]) @ spec_title upper False cs)"

text \<open>
  A directive of the pattern at position \<open>i\<close> of \<open>s\<close> with payload \<open>p\<close>: the opener
  text, the payload, which holds no line terminator, and \<^verbatim>\<open>-->\<close>.
\<close>

definition directive_at :: "string \<Rightarrow> string \<Rightarrow> nat \<Rightarrow> string \<Rightarrow> bool" where
  "directive_at opener s i p =
     (i \<le> length s \<and> prefix (opener @ p @ ''-->'') (drop i s) \<and>
      list_all (\<lambda>c. \<not> line_terminator c) p)"

text \<open>
  What "first match only, spliced out" means for a text \<open>s\<close>: either \<open>s\<close> holds no
  directive and stays as it is, or \<open>s\<close> is \<open>before\<close>, the directive with payload \<open>p\<close>,
  \<open>after\<close>, where no directive starts further left, none at the same place has a shorter
  payload, and what is left of the text is \<open>before @ after\<close>.
\<close>

definition first_directive :: "string \<Rightarrow> string \<Rightarrow> (string \<times> string \<times> string) option \<Rightarrow> bool" where
  "first_directive opener s found =
     (case found of
        None \<Rightarrow> list_all (\<lambda>i. \<forall>p. \<not> directive_at opener s i p) [0..<Suc (length s)]
      | Some (before, p, after) \<Rightarrow>
          s = before @ opener @ p @ ''-->'' @ after \<and>
          directive_at opener s (length before) p \<and>
          list_all (\<lambda>i. \<forall>q. \<not> directive_at opener s i q) [0..<length before] \<and>
          (\<forall>q. directive_at opener s (length before) q \<longrightarrow> length p \<le> length q))"

definition payload :: "(string \<times> string \<times> string) option \<Rightarrow> string option" where
  "payload found = (case found of None \<Rightarrow> None | Some (before, p, after) \<Rightarrow> Some p)"

definition remainder :: "string \<Rightarrow> (string \<times> string \<times> string) option \<Rightarrow> string" where
  "remainder s found = (case found of None \<Rightarrow> s | Some (before, p, after) \<Rightarrow> before @ after)"

text \<open>The parts of a text around a match: what stands before it, the group, what stands
  after it.\<close>

definition found_of :: "string \<Rightarrow> exec_result option \<Rightarrow> (string \<times> string \<times> string) option" where
  "found_of s r =
     map_option (\<lambda>m. (take (index m) s, captured m, drop (index m + length (matched m)) s)) r"

section \<open>Example inputs\<close>

text \<open>
  A root \<^verbatim>\<open>/docs\<close> on a POSIX platform with one module \<^verbatim>\<open>guide\<close>: its manifest and a
  content directory \<^verbatim>\<open>pages\<close> with three content files. The renderer of the examples
  wraps the text in a paragraph; \<^verbatim>\<open>JSON.parse\<close> is given on the manifests of the
  examples, every other text being malformed.
\<close>

definition guide_manifest :: string where
  \<open>guide_manifest = ''["intro", ["advanced", "tips"]]''\<close>

definition site_manifest :: string where
  \<open>site_manifest = ''["getting-started", "my-page"]''\<close>

definition broken_manifest :: string where
  \<open>broken_manifest = ''["intro", ''\<close>

definition example_parse :: "string \<Rightarrow> struct option" where
  "example_parse body =
     map_of [(guide_manifest, Arr [Key ''intro'', Arr [Key ''advanced'', Key ''tips'']]),
             (site_manifest, Arr [Key ''getting-started'', Key ''my-page''])] body"

definition example_env :: "(string \<times> entry) list \<Rightarrow> env" where
  "example_env tree =
     \<lparr>platform = Posix, files = map_of tree,
      render = (\<lambda>s. ''<p>'' @ s @ ''</p>'' @ [CHR 0x0A]),
      toUpperCase = ascii_upper, toLowerCase = (\<lambda>s. s), JSON_parse = example_parse,
      detectFile = (\<lambda>p. Inr ''text/plain''), sizeOf = (\<lambda>p. Inr []),
      mkdir = (\<lambda>p. None), writeFile = (\<lambda>p. None), copy = (\<lambda>p q. None),
      confirmation = True\<rparr>"

definition example_options :: options where
  "example_options =
     \<lparr>exclude_regexp = default_exclude, directory = ''/docs'', target = ''/out'',
      static = ''/static'', confirm = True, watch = False\<rparr>"

definition empty_world :: world where
  "empty_world = \<lparr>heap = [], logged = [], effects = []\<rparr>"

definition guide_module :: "(string \<times> entry) list" where
  "guide_module =
     [(''/docs/guide'', Directory [''structure.json'', ''pages'']),
      (''/docs/guide/structure.json'', File guide_manifest),
      (''/docs/guide/pages'', Directory [''intro.md'', ''advanced.md'', ''tips.md'']),
      (''/docs/guide/pages/intro.md'', File ''Welcome''),
      (''/docs/guide/pages/advanced.md'', File ''More''),
      (''/docs/guide/pages/tips.md'', File ''Hints'')]"

definition guide_tree :: "(string \<times> entry) list" where
  "guide_tree = (''/docs'', Directory [''guide'']) # guide_module"

text \<open>The same module with its content files beside the manifest.\<close>

definition flat_tree :: "(string \<times> entry) list" where
  "flat_tree =
     [(''/docs'', Directory [''guide'']),
      (''/docs/guide'', Directory [''structure.json'', ''intro.md'', ''advanced.md'', ''tips.md'']),
      (''/docs/guide/structure.json'', File guide_manifest),
      (''/docs/guide/intro.md'', File ''Welcome''),
      (''/docs/guide/advanced.md'', File ''More''),
      (''/docs/guide/tips.md'', File ''Hints'')]"

text \<open>The module \<^verbatim>\<open>guide\<close> beside a module whose manifest is malformed.\<close>

definition broken_tree :: "(string \<times> entry) list" where
  "broken_tree =
     [(''/docs'', Directory [''guide'', ''broken'']),
      (''/docs/broken'', Directory [''structure.json'']),
      (''/docs/broken/structure.json'', File broken_manifest)] @ guide_module"

text \<open>
  A module \<^verbatim>\<open>site\<close> whose content directory holds two content files and a raw
  directory \<^verbatim>\<open>images\<close>; the raw directory holds an image and an entry named
  \<^verbatim>\<open>.git\<close>.
\<close>

definition site_tree :: "(string \<times> entry) list" where
  \<open>site_tree =
     [(''/docs'', Directory [''site'', ''.git'', ''node_modules'']),
      (''/docs/.git'', Directory []),
      (''/docs/node_modules'', Directory []),
      (''/docs/site'', Directory [''structure.json'', ''pages'', ''node_modules'']),
      (''/docs/site/node_modules'', Directory []),
      (''/docs/site/structure.json'', File site_manifest),
      (''/docs/site/pages'', Directory [''getting-started.md'', ''my-page.md'', ''images'', ''.git'']),
      (''/docs/site/pages/.git'', Directory []),
      (''/docs/site/pages/getting-started.md'', File ''Welcome''),
      (''/docs/site/pages/my-page.md'', File ''<!--TITLE:Custom-->Hello *world*''),
      (''/docs/site/pages/images'', Directory [''logo.png'', ''.git'']),
      (''/docs/site/pages/images/logo.png'', File ''PNG''),
      (''/docs/site/pages/images/.git'', Directory [])]\<close>

text \<open>The path an effect wrote to.\<close>

fun written_path :: "effect \<Rightarrow> string" where
  "written_path (WriteFile p body) = p"
| "written_path (CopyDir p q) = q"
| "written_path (MakeDir p) = p"

text \<open>
  The Tree Builder in the words of the specification, over a table of documents: a
  TreeNode is a document with its ordered children; the empty list gives nothing; a key
  absent from the table gives nothing; a scalar key gives its document without children;
  a list gives the document of its first element with the nodes built from the other
  elements, in their order, those that gave nothing left out.
\<close>

datatype tree = Node document "tree list"

fun spec_build :: "(string \<rightharpoonup> document) \<Rightarrow> struct \<Rightarrow> tree option" where
  "spec_build table (Key k) = (case table k of None \<Rightarrow> None | Some d \<Rightarrow> Some (Node d []))"
| "spec_build table (Arr []) = None"
| "spec_build table (Arr (lead # rest)) =
     (case table (property_key lead) of
        None \<Rightarrow> None
      | Some d \<Rightarrow> Some (Node d (map the (filter (\<lambda>t. t \<noteq> None) (map (spec_build table) rest)))))"

text \<open>The warnings of the specification: one for every key that is looked up and is
  absent; the elements after an absent first element are not looked at.\<close>

fun spec_warnings :: "(string \<rightharpoonup> document) \<Rightarrow> string \<Rightarrow> struct \<Rightarrow> string list" where
  "spec_warnings table parent (Key k) =
     (case table k of None \<Rightarrow> [missing_child k parent] | Some d \<Rightarrow> [])"
| "spec_warnings table parent (Arr []) = []"
| "spec_warnings table parent (Arr (lead # rest)) =
     (case table (property_key lead) of
        None \<Rightarrow> [missing_child (property_key lead) parent]
      | Some d \<Rightarrow> concat (map (spec_warnings table parent) rest))"

text \<open>A TreeNode as JSON.\<close>

fun tree_json :: "tree \<Rightarrow> json" where
  "tree_json (Node d nodes) =
     JObject (own_properties d @ [(''children'', JArray (map tree_json nodes))])"

text \<open>The keys a Structure names, in the order \<^verbatim>\<open>build\<close> meets them.\<close>

fun keys_of :: "struct \<Rightarrow> string list" where
  "keys_of (Key k) = [k]"
| "keys_of (Arr []) = []"
| "keys_of (Arr (lead # rest)) = property_key lead # concat (map keys_of rest)"

text \<open>The table of documents a store stands for in a heap.\<close>

definition documents :: "obj list \<Rightarrow> (string \<rightharpoonup> jsval) \<Rightarrow> (string \<rightharpoonup> document)" where
  "documents h store k =
     (case store k of
        Some (Obj r) \<Rightarrow> Some (document.truncate (h ! r))
      | Some (Str s) \<Rightarrow> None
      | None \<Rightarrow> None)"

text \<open>The objects that a store holds under the given keys, and two heaps that agree on
  a set of references.\<close>

definition refs :: "(string \<rightharpoonup> jsval) \<Rightarrow> string list \<Rightarrow> nat set" where
  "refs store ks = {r. \<exists>k \<in> set ks. store k = Some (Obj r)}"

definition agree_on :: "nat set \<Rightarrow> obj list \<Rightarrow> obj list \<Rightarrow> bool" where
  "agree_on R h h' = (length h = length h' \<and> (\<forall>r \<in> R. h ! r = h' ! r))"

text \<open>A store of documents of a heap: every value is a reference into the heap, and
  different keys hold different objects (as in the mapping of a module, where every
  content file gives an object of its own).\<close>

definition document_store :: "obj list \<Rightarrow> (string \<rightharpoonup> jsval) \<Rightarrow> bool" where
  "document_store h store =
     ((\<forall>k v. store k = Some v \<longrightarrow> (\<exists>r. v = Obj r \<and> r < length h)) \<and>
      (\<forall>k k'. store k = store k' \<and> store k \<noteq> None \<longrightarrow> k = k'))"

text \<open>The key whose document a Structure puts at the root.\<close>

fun root_key :: "struct \<Rightarrow> string" where
  "root_key (Key k) = k"
| "root_key (Arr []) = []"
| "root_key (Arr (lead # rest)) = property_key lead"

text \<open>What \<^verbatim>\<open>build\<close> may change between two worlds: the \<^verbatim>\<open>children\<close> of the objects
  in \<open>R\<close>, nothing else of the heap.\<close>

definition frame :: "nat set \<Rightarrow> world \<Rightarrow> world \<Rightarrow> bool" where
  "frame R w w' =
     (length (heap w') = length (heap w) \<and>
      (\<forall>r. document.truncate (heap w' ! r) = document.truncate (heap w ! r)) \<and>
      (\<forall>r. r \<notin> R \<longrightarrow> heap w' ! r = heap w ! r))"

text \<open>The value \<^verbatim>\<open>build\<close> returns, as a look-up in the store.\<close>

definition returned :: "(string \<rightharpoonup> jsval) \<Rightarrow> struct \<Rightarrow> jsval option" where
  "returned store s = (if s = Arr [] then None else store (root_key s))"

text \<open>A store of three documents, the Structures of the examples and a heap that holds
  the documents.\<close>

definition abc_store :: "string \<rightharpoonup> jsval" where
  "abc_store = map_of [(''a'', Obj 0), (''b'', Obj 1), (''c'', Obj 2)]"

definition abc_document :: "string \<Rightarrow> document" where
  "abc_document k = \<lparr>doc_id = k, title = k, about = [], content = []\<rparr>"

definition abc_world :: world where
  "abc_world =
     \<lparr>heap = map (\<lambda>k. document.extend (abc_document k) (obj.fields None)) [''a'', ''b'', ''c''],
      logged = [], effects = []\<rparr>"

text \<open>
  What the default exclusion promises of a module that is handed to the Emitter: the
  pattern matches neither the base name of the module's directory, nor a key under which
  the mapping holds a document, nor the base name of a raw directory the mapping holds.
\<close>

definition clean_entry :: "platform \<Rightarrow> string \<times> jsval \<Rightarrow> bool" where
  "clean_entry pf item =
     (case snd item of
        Obj r \<Rightarrow> \<not> default_exclude (fst item)
      | Str s \<Rightarrow> \<not> default_exclude (basename pf s))"

definition admitted :: "env \<Rightarrow> options \<Rightarrow> string \<Rightarrow> module_result \<Rightarrow> bool" where
  "admitted env opts module contents =
     (\<not> default_exclude (basename (platform env) (path_join (platform env) (directory opts) module)) \<and>
      list_all (clean_entry (platform env)) (mappings contents))"

text \<open>An Emitter that is \<open>emit\<close> on the admitted modules and \<open>other\<close> on the rest.\<close>

definition only_admitted ::
  "env \<Rightarrow> options \<Rightarrow> (env \<Rightarrow> options \<Rightarrow> string \<Rightarrow> module_result \<Rightarrow> unit io) \<Rightarrow>
   (env \<Rightarrow> options \<Rightarrow> string \<Rightarrow> module_result \<Rightarrow> unit io) \<Rightarrow>
   env \<Rightarrow> options \<Rightarrow> string \<Rightarrow> module_result \<Rightarrow> unit io"
where
  "only_admitted env opts emit other env' opts' module contents =
     (if admitted env opts module contents then emit env' opts' module contents
      else other env' opts' module contents)"

section \<open>The Markdown Reader: directives and the default title\<close>

lemma capitalize_simps:
  "capitalize upper [] = []"
  "capitalize upper (c # cs) = upper c @ cs"
  by (simp_all add: capitalize_def)

lemma split_not_Nil: "split sep s \<noteq> []"
  by (induction s) (auto split: list.splits)

lemma join_Cons: "ws \<noteq> [] \<Longrightarrow> join sep (w # ws) = w @ sep @ join sep ws"
  by (cases ws) auto

lemma join_map_split:
  "join '' '' (map (capitalize upper) (split CHR '' '' (replace_all CHR ''-'' CHR '' '' s))) =
     spec_title upper True s \<and>
   (case split CHR '' '' (replace_all CHR ''-'' CHR '' '' s) of
      [] \<Rightarrow> True
    | w # ws \<Rightarrow> join '' '' (w # map (capitalize upper) ws) = spec_title upper False s)"
proof (induction s)
  case Nil
  show ?case by (simp add: replace_all_def capitalize_simps)
next
  case (Cons c cs)
  obtain w ws where sp: "split CHR '' '' (replace_all CHR ''-'' CHR '' '' cs) = w # ws"
    using split_not_Nil [of "CHR '' ''" "replace_all CHR ''-'' CHR '' '' cs"]
    by (cases "split CHR '' '' (replace_all CHR ''-'' CHR '' '' cs)") auto
  from Cons sp have ih1: "join '' '' (capitalize upper w # map (capitalize upper) ws) = spec_title upper True cs"
    and ih2: "join '' '' (w # map (capitalize upper) ws) = spec_title upper False cs"
    by simp_all
  show ?case
  proof (cases "c = CHR ''-'' \<or> c = CHR '' ''")
    case True
    then have "split CHR '' '' (replace_all CHR ''-'' CHR '' '' (c # cs)) = [] # w # ws"
      using sp by (auto simp: replace_all_def)
    then show ?thesis
      using True ih1 by (auto simp: capitalize_simps)
  next
    case False
    then have "split CHR '' '' (replace_all CHR ''-'' CHR '' '' (c # cs)) = (c # w) # ws"
      using sp by (auto simp: replace_all_def)
    moreover have "join '' '' ((upper c @ w) # map (capitalize upper) ws) = upper c @ join '' '' (w # map (capitalize upper) ws)"
      by (cases ws) auto
    moreover have "join '' '' ((c # w) # map (capitalize upper) ws) = c # join '' '' (w # map (capitalize upper) ws)"
      by (cases ws) auto
    ultimately show ?thesis
      using False ih2 by (auto simp: capitalize_simps)
  qed
qed

lemma default_title_spec: "default_title upper ident = spec_title upper True ident"
  using join_map_split [of upper ident] by (simp add: default_title_def)

lemma lazy_group_Some:
  "lazy_group closer s = Some p \<Longrightarrow>
     prefix (p @ closer) s \<and> list_all (\<lambda>c. \<not> line_terminator c) p \<and>
     (\<forall>q. prefix (q @ closer) s \<and> list_all (\<lambda>c. \<not> line_terminator c) q \<longrightarrow> length p \<le> length q)"
proof (induction s arbitrary: p)
  case Nil
  then show ?case by (auto split: if_splits)
next
  case (Cons c cs)
  show ?case
  proof (cases "prefix closer (c # cs)")
    case True
    with Cons.prems show ?thesis by auto
  next
    case False
    with Cons.prems obtain p' where p': "\<not> line_terminator c" "lazy_group closer cs = Some p'" "p = c # p'"
      by (auto split: if_splits)
    from Cons.IH [OF p'(2)] have ih: "prefix (p' @ closer) cs" "list_all (\<lambda>c. \<not> line_terminator c) p'"
      "\<And>q. prefix (q @ closer) cs \<Longrightarrow> list_all (\<lambda>c. \<not> line_terminator c) q \<Longrightarrow> length p' \<le> length q"
      by auto
    have "length p \<le> length q" if q: "prefix (q @ closer) (c # cs)" "list_all (\<lambda>c. \<not> line_terminator c) q" for q
    proof (cases q)
      case Nil
      with q False show ?thesis by simp
    next
      case (Cons d q')
      with q have "prefix (q' @ closer) cs" "list_all (\<lambda>c. \<not> line_terminator c) q'" by auto
      then show ?thesis using ih(3) Cons p'(3) by auto
    qed
    then show ?thesis using p' ih by auto
  qed
qed

lemma lazy_group_None:
  "lazy_group closer s = None \<Longrightarrow>
     \<not> (prefix (q @ closer) s \<and> list_all (\<lambda>c. \<not> line_terminator c) q)"
proof (induction s arbitrary: q)
  case Nil
  then show ?case by (auto split: if_splits)
next
  case (Cons c cs)
  show ?case
  proof (cases q)
    case Nil
    with Cons.prems show ?thesis by (auto split: if_splits)
  next
    case (Cons d q')
    with Cons.prems Cons.IH [of q'] show ?thesis by (auto split: if_splits)
  qed
qed

lemma prefix_append_drop:
  "prefix (xs @ ys) zs \<longleftrightarrow> prefix xs zs \<and> prefix ys (drop (length xs) zs)"
  by (auto simp: prefix_def)

lemma match_here_Some:
  "match_here opener closer s = Some p \<Longrightarrow>
     prefix (opener @ p @ closer) s \<and> list_all (\<lambda>c. \<not> line_terminator c) p \<and>
     (\<forall>q. prefix (opener @ q @ closer) s \<and> list_all (\<lambda>c. \<not> line_terminator c) q \<longrightarrow> length p \<le> length q)"
  using lazy_group_Some [of closer "drop (length opener) s" p]
  by (auto simp: match_here_def prefix_append_drop split: if_splits)

lemma match_here_None:
  "match_here opener closer s = None \<Longrightarrow>
     \<not> (prefix (opener @ q @ closer) s \<and> list_all (\<lambda>c. \<not> line_terminator c) q)"
  using lazy_group_None [of closer "drop (length opener) s" q]
  by (auto simp: match_here_def prefix_append_drop split: if_splits)

lemma exec_from_cases:
  "(case exec_from opener closer i s of
      None \<Rightarrow> \<forall>j \<le> length s. match_here opener closer (drop j s) = None
    | Some m \<Rightarrow>
        (\<exists>j \<le> length s. index m = i + j \<and> match_here opener closer (drop j s) = Some (captured m) \<and>
           matched m = opener @ captured m @ closer \<and>
           (\<forall>k < j. match_here opener closer (drop k s) = None)))"
proof (induction s arbitrary: i)
  case Nil
  show ?case by (auto split: option.splits)
next
  case (Cons c cs)
  show ?case
  proof (cases "match_here opener closer (c # cs)")
    case (Some p)
    then show ?thesis by (auto intro!: exI [of _ 0])
  next
    case None
    show ?thesis
    proof (cases "exec_from opener closer (Suc i) cs")
      case n: None
      with Cons.IH [of "Suc i"] have "\<forall>j \<le> length cs. match_here opener closer (drop j cs) = None"
        by simp
      then have "\<forall>j \<le> length (c # cs). match_here opener closer (drop j (c # cs)) = None"
        using None by (auto simp: drop_Cons split: nat.splits)
      then show ?thesis using None n by simp
    next
      case (Some m)
      with Cons.IH [of "Suc i"] obtain j where j: "j \<le> length cs" "index m = Suc i + j"
        "match_here opener closer (drop j cs) = Some (captured m)"
        "matched m = opener @ captured m @ closer"
        "\<forall>k < j. match_here opener closer (drop k cs) = None"
        by auto
      have "\<forall>k < Suc j. match_here opener closer (drop k (c # cs)) = None"
        using None j(5) by (auto simp: drop_Cons split: nat.splits)
      with j have "Suc j \<le> length (c # cs) \<and> index m = i + Suc j \<and>
          match_here opener closer (drop (Suc j) (c # cs)) = Some (captured m) \<and>
          matched m = opener @ captured m @ closer \<and>
          (\<forall>k < Suc j. match_here opener closer (drop k (c # cs)) = None)"
        by simp
      then show ?thesis using None Some by (auto simp del: drop_Suc_Cons)
    qed
  qed
qed

lemma exec_from_first_directive:
  "first_directive opener s (found_of s (exec_from opener ''-->'' 0 s))"
proof (cases "exec_from opener ''-->'' 0 s")
  case None
  with exec_from_cases [where opener = opener and closer = "''-->''" and i = 0 and s = s]
  have "\<forall>j \<le> length s. match_here opener ''-->'' (drop j s) = None" by simp
  then have "\<not> directive_at opener s i p" for i p
    using match_here_None [of opener "''-->''" "drop i s" p] by (auto simp: directive_at_def)
  then show ?thesis using None by (simp add: first_directive_def found_of_def list_all_iff)
next
  case (Some m)
  with exec_from_cases [where opener = opener and closer = "''-->''" and i = 0 and s = s] obtain j where j: "j \<le> length s" "index m = j"
    "match_here opener ''-->'' (drop j s) = Some (captured m)"
    "matched m = opener @ captured m @ ''-->''"
    "\<forall>k < j. match_here opener ''-->'' (drop k s) = None"
    by auto
  from match_here_Some [OF j(3)] have m: "prefix (opener @ captured m @ ''-->'') (drop j s)"
    "list_all (\<lambda>c. \<not> line_terminator c) (captured m)"
    "\<And>q. prefix (opener @ q @ ''-->'') (drop j s) \<Longrightarrow> list_all (\<lambda>c. \<not> line_terminator c) q \<Longrightarrow> length (captured m) \<le> length q"
    by auto
  from m(1) obtain rest where rest: "drop j s = (opener @ captured m @ ''-->'') @ rest"
    by (auto simp: prefix_def)
  then have dr: "drop (j + length (matched m)) s = rest"
    using j(4) by (metis append_eq_conv_conj drop_drop add.commute)
  have s: "s = take j s @ opener @ captured m @ ''-->'' @ rest"
    using rest by (metis append_take_drop_id append.assoc)
  have lt: "length (take j s) = j" using j(1) by simp
  have early: "\<not> directive_at opener s k q" if "k < j" for k q
    using match_here_None [of opener "''-->''" "drop k s" q] j(5) that by (auto simp: directive_at_def)
  have "first_directive opener s (Some (take j s, captured m, rest))"
    unfolding first_directive_def
    using s lt j(1) m early by (auto simp: directive_at_def list_all_iff)
  then show ?thesis using Some dr j(2) by (simp add: found_of_def)
qed

lemma splice_out_remainder:
  "(case exec_from opener ''-->'' 0 s of None \<Rightarrow> s | Some m \<Rightarrow> splice_out s m) =
     remainder s (found_of s (exec_from opener ''-->'' 0 s))"
  by (auto simp: remainder_def found_of_def splice_out_def split: option.splits)

lemma exec_title_first: "first_directive ''<!--TITLE:'' s (found_of s (exec_title s))"
  unfolding exec_title_def by (rule exec_from_first_directive)

lemma exec_about_first: "first_directive ''<!--ABOUT:'' s (found_of s (exec_about s))"
  unfolding exec_about_def by (rule exec_from_first_directive)

text \<open>
  C5. For every markdown text the reader takes the first title directive only and, from
  what is left, the first about directive only; exactly the text of each directive is cut
  out and everything else is rendered in its order. The title is the payload of the title
  directive (the default title without one), the about text the payload of the about
  directive (empty without one), the content the trimmed rendering of the rest.
\<close>

theorem read_markdown_directives:
  "first_directive ''<!--TITLE:'' markdown (found_of markdown (exec_title markdown)) \<and>
   first_directive ''<!--ABOUT:'' (remainder markdown (found_of markdown (exec_title markdown)))
     (found_of (remainder markdown (found_of markdown (exec_title markdown)))
        (exec_about (remainder markdown (found_of markdown (exec_title markdown))))) \<and>
   read_markdown env ident markdown =
     \<lparr>doc_id = ident,
      title = (case payload (found_of markdown (exec_title markdown)) of
                 Some p \<Rightarrow> p
               | None \<Rightarrow> default_title (toUpperCase env) ident),
      about = (case payload (found_of (remainder markdown (found_of markdown (exec_title markdown)))
                        (exec_about (remainder markdown (found_of markdown (exec_title markdown))))) of
                 Some p \<Rightarrow> p
               | None \<Rightarrow> []),
      content = trim (render env
                  (remainder (remainder markdown (found_of markdown (exec_title markdown)))
                     (found_of (remainder markdown (found_of markdown (exec_title markdown)))
                        (exec_about (remainder markdown (found_of markdown (exec_title markdown)))))))\<rparr>"
proof -
  have t: "extract_title upper ident markdown =
      ((case payload (found_of markdown (exec_title markdown)) of
          Some p \<Rightarrow> p | None \<Rightarrow> default_title upper ident),
       remainder markdown (found_of markdown (exec_title markdown)))" for upper
    by (simp add: extract_title_def payload_def remainder_def found_of_def splice_out_def
        split: option.splits)
  have a: "extract_about s =
      ((case payload (found_of s (exec_about s)) of Some p \<Rightarrow> p | None \<Rightarrow> []),
       remainder s (found_of s (exec_about s)))" for s
    by (simp add: extract_about_def payload_def remainder_def found_of_def splice_out_def
        split: option.splits)
  show ?thesis
    using exec_title_first [of markdown]
      exec_about_first [of "remainder markdown (found_of markdown (exec_title markdown))"]
    by (simp add: read_markdown_def t a)
qed

theorem read_markdown_directives_witness:
  "\<forall>env.
     first_directive ''<!--TITLE:'' ''<!--TITLE:Custom-->Hello *world*''
       (Some ([], ''Custom'', ''Hello *world*'')) \<and>
     first_directive ''<!--ABOUT:'' ''Hello *world*'' None \<and>
     read_markdown env (basename_md Posix ''/docs/site/pages/my-page.md'')
         ''<!--TITLE:Custom-->Hello *world*'' =
       \<lparr>doc_id = ''my-page'', title = ''Custom'', about = [],
        content = trim (render env ''Hello *world*'')\<rparr>"
proof
  fix env :: env
  have t: "exec_title ''<!--TITLE:Custom-->Hello *world*'' =
      Some \<lparr>index = 0, matched = ''<!--TITLE:Custom-->'', captured = ''Custom''\<rparr>"
    by (simp add: exec_title_def match_here_def line_terminator_def)
  have a: "exec_about ''Hello *world*'' = None"
    by (simp add: exec_about_def match_here_def)
  have b: "basename_md Posix ''/docs/site/pages/my-page.md'' = ''my-page''"
    by (simp add: basename_md_def basename_def is_separator_def suffix_def)
  show "first_directive ''<!--TITLE:'' ''<!--TITLE:Custom-->Hello *world*''
       (Some ([], ''Custom'', ''Hello *world*'')) \<and>
     first_directive ''<!--ABOUT:'' ''Hello *world*'' None \<and>
     read_markdown env (basename_md Posix ''/docs/site/pages/my-page.md'')
         ''<!--TITLE:Custom-->Hello *world*'' =
       \<lparr>doc_id = ''my-page'', title = ''Custom'', about = [],
        content = trim (render env ''Hello *world*'')\<rparr>"
    using read_markdown_directives [of "''<!--TITLE:Custom-->Hello *world*''" env "''my-page''"]
    by (simp add: t a b found_of_def remainder_def payload_def)
qed


text \<open>
  C9. For every content file without a title directive, the title of the document that
  \<^verbatim>\<open>read\<close> creates is the stem of the file name with every hyphen replaced by a space
  and the first character of every word upper-cased.
\<close>

theorem read1_default_title:
  assumes "files env location = Some (File markdown)"
    and "exec_title markdown = None"
  shows "fst (read1 env location w) = Inr (Obj (length (heap w))) \<and>
     doc_id (heap (snd (read1 env location w)) ! length (heap w)) =
       basename_md (platform env) location \<and>
     title (heap (snd (read1 env location w)) ! length (heap w)) =
       spec_title (toUpperCase env) True (basename_md (platform env) location)"
  using assms
  by (simp add: read1_def readFile_def alloc_def info_def read_markdown_def extract_title_def
      default_title_spec document.defs obj.defs split: prod.splits)

theorem read1_default_title_witness:
  "files (example_env site_tree) ''/docs/site/pages/getting-started.md'' = Some (File ''Welcome'') \<and>
   exec_title ''Welcome'' = None \<and>
   fst (read1 (example_env site_tree) ''/docs/site/pages/getting-started.md'' empty_world) = Inr (Obj 0) \<and>
   doc_id (heap (snd (read1 (example_env site_tree) ''/docs/site/pages/getting-started.md'' empty_world)) ! 0) =
     ''getting-started'' \<and>
   title (heap (snd (read1 (example_env site_tree) ''/docs/site/pages/getting-started.md'' empty_world)) ! 0) =
     ''Getting Started''"
proof -
  have f: "files (example_env site_tree) ''/docs/site/pages/getting-started.md'' = Some (File ''Welcome'')"
    by (simp add: example_env_def site_tree_def)
  have t: "exec_title ''Welcome'' = None"
    by (simp add: exec_title_def match_here_def)
  have b: "basename_md Posix ''/docs/site/pages/getting-started.md'' = ''getting-started''"
    by (simp add: basename_md_def basename_def is_separator_def suffix_def)
  have p: "platform (example_env site_tree) = Posix" "toUpperCase (example_env site_tree) = ascii_upper"
    by (simp_all add: example_env_def)
  have s: "spec_title ascii_upper True ''getting-started'' = ''Getting Started''"
    by (simp add: ascii_upper_def)
  have l: "length (heap empty_world) = 0"
    by (simp add: empty_world_def)
  show ?thesis
    using read1_default_title [OF f t, of empty_world] f t
    unfolding p b s l by simp
qed

section \<open>The Markdown Reader: files and directories\<close>




section \<open>The key of a raw directory\<close>

text \<open>
  C6 at a POSIX root. The Content Resolver of the two-level variant removes the root and
  then looks for backslashes only, so the key of the raw directory
  \<^verbatim>\<open>/docs/site/pages/images\<close> keeps its leading separator and its slashes: it is not the
  dotted relative path \<^verbatim>\<open>site.pages.images\<close>.
\<close>

theorem resolve2_posix_key:
  "fst (resolve2 (example_env site_tree) example_options ''/docs/site/pages'' empty_world) =
     Inr [(''getting-started'', Obj 0), (''my-page'', Obj 1),
          (''/site/pages/images'', Str ''/docs/site/pages/images'')] \<and>
   directory_key example_options ''/docs/site/pages/images'' \<noteq> ''site.pages.images''"
  by code_simp

text \<open>With backslashes as separators the same function gives the dotted relative path.\<close>

lemma directory_key_win32:
  "directory_key (example_options\<lparr>directory := ''C:'' @ [CHR 0x5C] @ ''docs''\<rparr>)
     (path_join Win32 (path_join Win32 (path_join Win32 (''C:'' @ [CHR 0x5C] @ ''docs'') ''site'') ''pages'')
        ''images'') =
   ''site.pages.images''"
  by code_simp

section \<open>The creation of the output directory\<close>

lemma make_target2_never_rejects: "fst (make_target2 env opts w) = Inr ()"
  by (simp add: make_target2_def make_dir_def catch_def split: option.splits)

lemma make_target1_cases:
  "fst (make_target1 env opts w) =
     (case mkdir env (target opts) of
        None \<Rightarrow> Inr ()
      | Some e \<Rightarrow> if code e = Some ''EEXIST'' then Inr () else Inl e)"
  by (simp add: make_target1_def make_dir_def catch_def split: option.splits)

lemma run2_confirmed:
  assumes "confirm opts"
  shows "fst (run2 env opts w) =
       (case fst (crawl resolve2 emit2 env opts (snd (make_target2 env opts w))) of
          Inl e \<Rightarrow> Inl e
        | Inr emitted \<Rightarrow> Inr ()) \<and>
     snd (snd (run2 env opts w)) =
       snd (crawl resolve2 emit2 env opts (snd (make_target2 env opts w)))"
proof -
  obtain w' where m: "make_target2 env opts w = (Inr (), w')"
    using make_target2_never_rejects [of env opts w]
    by (cases "make_target2 env opts w") auto
  show ?thesis
    using assms by (simp add: run2_def m split: prod.splits sum.splits)
qed

text \<open>
  C7 at an error other than \<^verbatim>\<open>EEXIST\<close>. When \<^verbatim>\<open>fs.mkdir\<close> is rejected with
  \<^verbatim>\<open>EACCES\<close>, the step in \<^verbatim>\<open>emit\<close> of the single-level variant passes the error on,
  while the step in \<^verbatim>\<open>run\<close> of the two-level variant swallows it (the handler given to
  \<^verbatim>\<open>.catch\<close> has taken every error before the \<^verbatim>\<open>catch\<close> block can look at its
  code) and the run goes on to crawl and write.
\<close>

theorem make_target2_swallows_every_error:
  "make_target1 (example_env guide_tree\<lparr>mkdir := \<lambda>p. Some (SysError ''EACCES'')\<rparr>) example_options
       empty_world = (Inl (SysError ''EACCES''), empty_world) \<and>
   make_target2 (example_env guide_tree\<lparr>mkdir := \<lambda>p. Some (SysError ''EACCES'')\<rparr>) example_options
       empty_world = (Inr (), empty_world) \<and>
   fst (run2 (example_env guide_tree\<lparr>mkdir := \<lambda>p. Some (SysError ''EACCES'')\<rparr>) example_options
       empty_world) = Inr () \<and>
   map written_path
     (effects (snd (snd (run2 (example_env guide_tree\<lparr>mkdir := \<lambda>p. Some (SysError ''EACCES'')\<rparr>)
        example_options empty_world)))) = [''/out/guide.json'', ''/out/guide.meta.json'']"
proof -
  have m1: "make_target1 (example_env guide_tree\<lparr>mkdir := \<lambda>p. Some (SysError ''EACCES'')\<rparr>)
      example_options empty_world = (Inl (SysError ''EACCES''), empty_world)"
    by code_simp
  have m2: "make_target2 (example_env guide_tree\<lparr>mkdir := \<lambda>p. Some (SysError ''EACCES'')\<rparr>)
      example_options empty_world = (Inr (), empty_world)"
    by code_simp
  have c1: "fst (crawl resolve2 emit2 (example_env guide_tree\<lparr>mkdir := \<lambda>p. Some (SysError ''EACCES'')\<rparr>)
      example_options empty_world) = Inr [Inr ()]"
    by code_simp
  have c2: "map written_path (effects (snd (crawl resolve2 emit2
      (example_env guide_tree\<lparr>mkdir := \<lambda>p. Some (SysError ''EACCES'')\<rparr>)
      example_options empty_world))) = [''/out/guide.json'', ''/out/guide.meta.json'']"
    by code_simp
  have o: "confirm example_options"
    by (simp add: example_options_def)
  show ?thesis
    using run2_confirmed [OF o, of "example_env guide_tree\<lparr>mkdir := \<lambda>p. Some (SysError ''EACCES'')\<rparr>"
        empty_world]
    by (simp add: m1 m2 c1 c2)
qed

section \<open>What a run leaves unchanged\<close>

lemma effects_log [simp]:
  "effects (info message w) = effects w"
  "effects (warn message w) = effects w"
  "effects (err e w) = effects w"
  "effects (line amount w) = effects w"
  by (simp_all add: info_def warn_def err_def line_def)

lemma effects_alloc [simp]: "effects (snd (alloc d w)) = effects w"
  by (simp add: alloc_def)

lemma effects_set_children [simp]: "effects (set_children element list w) = effects w"
  by (simp add: set_children_def split: jsval.splits)

lemma fan_out_effects:
  assumes "\<And>x w. effects (snd (f x w)) = effects w"
  shows "effects (snd (fan_out f xs w)) = effects w"
proof (induction xs arbitrary: w)
  case Nil
  show ?case by simp
next
  case (Cons x xs)
  show ?case
    using assms [of x w] Cons.IH [of "snd (f x w)"]
    by (simp add: split_beta)
qed

lemma build_effects:
  "effects (snd (build store s parent w)) = effects w"
  "effects (snd (build_blocks store ss parent w)) = effects w"
proof (induction store s parent w and store ss parent w rule: build_build_blocks.induct)
  case (1 store parent w)
  show ?case by simp
next
  case (2 store lead rest parent w)
  show ?case
  proof (cases "hasOwnProperty store (property_key lead)")
    case (Inl e)
    then show ?thesis by simp
  next
    case (Inr found)
    show ?thesis
    proof (cases "store (property_key lead)")
      case None
      with Inr show ?thesis by simp
    next
      case (Some element)
      with Inr "2.IH" [OF Inr Some] show ?thesis
        by (cases "build_blocks store rest parent w") (simp split: sum.splits)
    qed
  qed
next
  case (3 store k parent w)
  show ?case by (simp split: sum.splits option.splits)
next
  case (4 store parent w)
  show ?case by simp
next
  case (5 store block blocks parent w)
  obtain r w1 where b: "build store block parent w = (r, w1)"
    by (cases "build store block parent w")
  show ?case
  proof (cases r)
    case (Inl e)
    with b "5.IH"(1) show ?thesis by simp
  next
    case (Inr child)
    with b "5.IH"(1) "5.IH"(2) [of r w1 child] show ?thesis
      by (cases "build_blocks store blocks parent w1") (simp split: sum.splits)
  qed
qed

lemma build_forest_effects [simp]:
  "effects (snd (build_forest store parsed module w)) = effects w"
  by (simp add: build_forest_def build_effects split_beta split: struct.splits sum.splits)

lemma read1_effects [simp]: "effects (snd (read1 env location w)) = effects w"
  by (simp add: read1_def split_beta split: sum.splits)

lemma read2_effects [simp]: "effects (snd (read2 env location w)) = effects w"
  by (simp add: read2_def split: sum.splits)

lemma fan_out_read1_effects:
  "effects (snd (fan_out (\<lambda>file. read1 env (g file)) xs w)) = effects w"
  by (rule fan_out_effects) simp

lemma fan_out_read2_effects:
  "effects (snd (fan_out (\<lambda>file. read2 env (g file)) xs w)) = effects w"
  by (rule fan_out_effects) simp

lemma resolve1_effects [simp]: "effects (snd (resolve1 env opts location w)) = effects w"
  unfolding resolve1_def
  by (simp add: fan_out_read1_effects split_beta split: sum.splits)

lemma resolve2_effects [simp]: "effects (snd (resolve2 env opts location w)) = effects w"
  unfolding resolve2_def
  by (simp add: fan_out_read2_effects split_beta split: sum.splits)

lemma traverse_effects:
  assumes "\<And>l w. effects (snd (action l w)) = effects w"
  shows "effects (snd (traverse env opts location action w)) = effects w"
  using assms by (simp add: traverse_def split: sum.splits)

lemma present_effects:
  assumes "effects (snd (action w)) = effects w"
  shows "effects (snd (present action w)) = effects w"
  using assms by (simp add: present_def split_beta split: sum.splits)

lemma explore_effects:
  assumes "\<And>l w. effects (snd (resolve env opts l w)) = effects w"
  shows "effects (snd (explore resolve env opts location w)) = effects w"
proof -
  have tr: "effects (snd (traverse env opts l (\<lambda>l. present (resolve env opts l)) w)) = effects w"
    for l w
    using assms by (intro traverse_effects present_effects)
  have fo: "effects (snd (fan_out
          (\<lambda>file. traverse env opts (path_join (platform env) location file)
             (\<lambda>l. present (resolve env opts l))) xs w')) = effects w'" for xs w'
    by (rule fan_out_effects) (rule tr)
  show ?thesis
    unfolding explore_def
    by (simp add: fo split_beta split: sum.splits option.splits)
qed

lemma probe_effects [simp]: "effects (snd (probe env dir name w)) = effects w"
  by (simp add: probe_def split: sum.splits)

lemma probe_dir_effects [simp]: "effects (snd (probe_dir env dir w)) = effects w"
  by (simp add: probe_dir_def fan_out_effects split_beta split: sum.splits)

lemma announce_effects [simp]: "effects (snd (announce metaTarget meta w)) = effects w"
  by (simp add: announce_def)

section \<open>The meta bundle of the two-level variant\<close>







section \<open>A rejected exploration\<close>

lemma promise_all_rejected:
  assumes "x \<in> set xs" and "\<And>w. \<exists>e. fst (f x w) = Inl e"
  shows "\<exists>e. promise_all (fst (fan_out f xs w)) = Inl e"
  using assms(1)
proof (induction xs arbitrary: w)
  case Nil
  then show ?case by simp
next
  case (Cons y ys)
  show ?case
  proof (cases "fst (f y w)")
    case (Inl e)
    then show ?thesis by (simp add: split_beta)
  next
    case (Inr v)
    with assms(2) [of w] have "x \<noteq> y" by auto
    with Cons.prems have "x \<in> set ys" by simp
    from Cons.IH [OF this, of "snd (f y w)"] obtain e
      where "promise_all (fst (fan_out f ys (snd (f y w)))) = Inl e" by blast
    with Inr show ?thesis by (simp add: split_beta)
  qed
qed

lemma crawl_rejected:
  assumes "readdir env (directory opts) = Inr modules"
    and "module \<in> set modules"
    and "\<And>w1. \<exists>e. fst (traverse env opts (path_join (platform env) (directory opts) module)
                        (explore resolve env opts) w1) = Inl e"
    and "\<And>l w1. effects (snd (resolve env opts l w1)) = effects w1"
  shows "(\<exists>e. fst (crawl resolve emit env opts w) = Inl e) \<and>
     effects (snd (crawl resolve emit env opts w)) = effects w"
proof -
  obtain e where e: "promise_all (fst (fan_out
      (\<lambda>module. traverse env opts (path_join (platform env) (directory opts) module)
         (explore resolve env opts)) modules w)) = Inl e"
    using promise_all_rejected [where f = "\<lambda>module. traverse env opts
        (path_join (platform env) (directory opts) module) (explore resolve env opts)",
        OF assms(2) assms(3)]
    by blast
  have f: "effects (snd (fan_out
      (\<lambda>module. traverse env opts (path_join (platform env) (directory opts) module)
         (explore resolve env opts)) modules w)) = effects w"
    by (intro fan_out_effects traverse_effects explore_effects assms(4))
  show ?thesis
    using e f by (simp add: crawl_def assms(1) split_beta)
qed

text \<open>A module whose manifest does not parse: its exploration is rejected whatever the
  state of the log and the heap.\<close>

lemma explore_malformed:
  assumes "\<not> exclude env opts location"
    and "files env location = Some (Directory listing)"
    and "''structure.json'' \<in> set listing"
    and "\<not> exclude env opts ''structure.json''"
    and "files env (path_join (platform env) location ''structure.json'') = Some (File body)"
    and "JSON_parse env body = None"
  shows "fst (traverse env opts location (explore resolve env opts) w) = Inl SyntaxError"
  using assms
  by (simp add: traverse_def stat_def explore_def readdir_def readFile_def)

text \<open>
  C3, as the code has it. When the exploration of one module of the root is rejected (a
  manifest that does not parse is one way), \<^verbatim>\<open>Promise.all\<close> in \<^verbatim>\<open>crawl\<close> is rejected:
  \<^verbatim>\<open>crawl\<close> is rejected as a whole and writes nothing, for no module, in both
  variants.
\<close>

theorem crawl_rejected_as_a_whole:
  assumes "readdir env (directory opts) = Inr modules"
    and "module \<in> set modules"
  shows "((\<forall>w1. \<exists>e. fst (traverse env opts (path_join (platform env) (directory opts) module)
                        (explore resolve1 env opts) w1) = Inl e) \<longrightarrow>
      (\<exists>e. fst (crawl resolve1 emit1 env opts w) = Inl e) \<and>
      effects (snd (crawl resolve1 emit1 env opts w)) = effects w) \<and>
     ((\<forall>w1. \<exists>e. fst (traverse env opts (path_join (platform env) (directory opts) module)
                        (explore resolve2 env opts) w1) = Inl e) \<longrightarrow>
      (\<exists>e. fst (crawl resolve2 emit2 env opts w) = Inl e) \<and>
      effects (snd (crawl resolve2 emit2 env opts w)) = effects w)"
  using crawl_rejected [OF assms(1) assms(2), where resolve = resolve1 and emit = emit1 and w = w]
    crawl_rejected [OF assms(1) assms(2), where resolve = resolve2 and emit = emit2 and w = w]
  by simp

theorem crawl_rejected_as_a_whole_witness:
  "readdir (example_env broken_tree) (directory example_options) = Inr [''guide'', ''broken''] \<and>
   ''broken'' \<in> set [''guide'', ''broken''] \<and>
   (\<forall>w1. fst (traverse (example_env broken_tree) example_options
        (path_join (platform (example_env broken_tree)) (directory example_options) ''broken'')
        (explore resolve1 (example_env broken_tree) example_options) w1) = Inl SyntaxError) \<and>
   (\<forall>w1. fst (traverse (example_env broken_tree) example_options
        (path_join (platform (example_env broken_tree)) (directory example_options) ''broken'')
        (explore resolve2 (example_env broken_tree) example_options) w1) = Inl SyntaxError) \<and>
   (\<exists>e. fst (crawl resolve1 emit1 (example_env broken_tree) example_options empty_world) = Inl e) \<and>
   effects (snd (crawl resolve1 emit1 (example_env broken_tree) example_options empty_world)) = [] \<and>
   (\<exists>e. fst (crawl resolve2 emit2 (example_env broken_tree) example_options empty_world) = Inl e) \<and>
   effects (snd (crawl resolve2 emit2 (example_env broken_tree) example_options empty_world)) = []"
proof -
  have r: "readdir (example_env broken_tree) (directory example_options) = Inr [''guide'', ''broken'']"
    by (simp add: readdir_def example_env_def broken_tree_def example_options_def)
  have m: "''broken'' \<in> set [''guide'', ''broken'']"
    by simp
  have p: "path_join (platform (example_env broken_tree)) (directory example_options) ''broken'' = ''/docs/broken''"
    by (simp add: path_join_def example_env_def example_options_def is_separator_def separator_def)
  have x: "fst (traverse (example_env broken_tree) example_options ''/docs/broken''
        (explore resolve (example_env broken_tree) example_options) w1) = Inl SyntaxError" for resolve w1
  proof (rule explore_malformed [where listing = "[''structure.json'']" and body = broken_manifest])
    show "\<not> exclude (example_env broken_tree) example_options ''/docs/broken''"
      by code_simp
    show "files (example_env broken_tree) ''/docs/broken'' = Some (Directory [''structure.json''])"
      by (simp add: example_env_def broken_tree_def)
    show "''structure.json'' \<in> set [''structure.json'']"
      by simp
    show "\<not> exclude (example_env broken_tree) example_options ''structure.json''"
      by code_simp
    show "files (example_env broken_tree)
        (path_join (platform (example_env broken_tree)) ''/docs/broken'' ''structure.json'') =
        Some (File broken_manifest)"
      by (simp add: path_join_def example_env_def broken_tree_def is_separator_def separator_def)
    show "JSON_parse (example_env broken_tree) broken_manifest = None"
      by (simp add: example_env_def example_parse_def broken_manifest_def guide_manifest_def
          site_manifest_def)
  qed
  have e: "effects empty_world = []"
    by (simp add: empty_world_def)
  show ?thesis
    using crawl_rejected_as_a_whole [OF r m, of empty_world] x r
    unfolding p e by simp
qed

text \<open>
  C3 as stated fails: beside a module whose manifest is malformed, the module
  \<^verbatim>\<open>guide\<close> is explored to its end (its three content files are read) and yet no
  bundle is written for it; the run only logs the error.
\<close>

theorem sibling_of_broken_module_not_emitted:
  "Info ''|| reading /docs/guide/pages/tips.md'' \<in>
     set (logged (main1 (example_env broken_tree) example_options empty_world)) \<and>
   Err SyntaxError \<in> set (logged (main1 (example_env broken_tree) example_options empty_world)) \<and>
   effects (main1 (example_env broken_tree) example_options empty_world) = [] \<and>
   map written_path (effects (main1 (example_env guide_tree) example_options empty_world)) =
     [''/out'', ''/out/guide.json'']"
  by code_simp

section \<open>The Tree Builder against its reference definition\<close>

lemma heap_log [simp]:
  "heap (info message w) = heap w"
  "heap (warn message w) = heap w"
  "heap (err e w) = heap w"
  "heap (line amount w) = heap w"
  by (simp_all add: info_def warn_def err_def line_def)

lemma heap_set_children:
  "heap (set_children (Obj r) list w) = (heap w)[r := (heap w ! r)\<lparr>children := Some list\<rparr>]"
  "heap (set_children (Str s) list w) = heap w"
  by (simp_all add: set_children_def)

lemma truncate_children [simp]:
  "document.truncate (d\<lparr>children := c\<rparr>) = document.truncate d"
  by (simp add: document.truncate_def)

lemma frame_refl [simp]: "frame R w w"
  by (simp add: frame_def)

lemma frame_trans: "frame R w w1 \<Longrightarrow> frame R' w1 w2 \<Longrightarrow> frame (R \<union> R') w w2"
  by (auto simp: frame_def)

lemma frame_mono: "frame R w w' \<Longrightarrow> R \<subseteq> R' \<Longrightarrow> frame R' w w'"
  by (auto simp: frame_def)

lemma frame_warn [simp]: "frame R w (warn message w)"
  by (simp add: frame_def)

lemma frame_set_children:
  "store k = Some element \<Longrightarrow> k \<in> set ks \<Longrightarrow> frame (refs store ks) w (set_children element list w)"
proof (cases element)
  case (Obj r)
  assume "store k = Some element" "k \<in> set ks"
  with Obj have "r \<in> refs store ks"
    by (auto simp: refs_def)
  then show ?thesis
    using Obj
    by (cases "r < length (heap w)")
       (auto simp: frame_def heap_set_children nth_list_update list_update_beyond)
next
  case (Str s)
  then show ?thesis
    by (simp add: frame_def heap_set_children)
qed

lemma refs_Nil [simp]: "refs store [] = {}"
  by (simp add: refs_def)

lemma refs_Cons [simp]: "refs store (k # ks) = {r. store k = Some (Obj r)} \<union> refs store ks"
  by (auto simp: refs_def)

lemma refs_append [simp]: "refs store (ks @ ks') = refs store ks \<union> refs store ks'"
  by (auto simp: refs_def)

lemma build_frame:
  "frame (refs store (keys_of s)) w (snd (build store s parent w))"
  "frame (refs store (concat (map keys_of ss))) w (snd (build_blocks store ss parent w))"
proof (induction store s parent w and store ss parent w rule: build_build_blocks.induct)
  case (1 store parent w)
  show ?case by simp
next
  case (2 store lead rest parent w)
  show ?case
  proof (cases "hasOwnProperty store (property_key lead)")
    case (Inl e)
    then show ?thesis by simp
  next
    case (Inr found)
    show ?thesis
    proof (cases "store (property_key lead)")
      case None
      with Inr show ?thesis by simp
    next
      case (Some element)
      obtain r w1 where b: "build_blocks store rest parent w = (r, w1)"
        by (cases "build_blocks store rest parent w")
      from "2.IH" [OF Inr Some] b
      have f1: "frame (refs store (concat (map keys_of rest))) w w1" by simp
      have f2: "frame (refs store [property_key lead]) w1 (set_children element list w1)" for list
        using Some by (intro frame_set_children) simp_all
      show ?thesis
      proof (cases r)
        case (Inl e)
        have "frame (refs store (property_key lead # concat (map keys_of rest))) w w1"
          using f1 by (rule frame_mono) (auto simp: refs_def)
        with Inr Some b Inl show ?thesis
          by simp
      next
        case r: (Inr built)
        have "frame (refs store (concat (map keys_of rest)) \<union> refs store [property_key lead]) w
              (set_children element (map the (filter (\<lambda>child. child \<noteq> None) built)) w1)"
          using f1 f2 by (rule frame_trans)
        with Inr Some b r show ?thesis
          by (simp add: Un_commute)
      qed
    qed
  qed
next
  case (3 store k parent w)
  have "frame (refs store [k]) w (set_children element [] w)" if "store k = Some element" for element
    using that by (intro frame_set_children) simp_all
  then show ?case
    by (simp split: sum.splits option.splits)
next
  case (4 store parent w)
  show ?case by simp
next
  case (5 store block blocks parent w)
  obtain r w1 where b: "build store block parent w = (r, w1)"
    by (cases "build store block parent w")
  from "5.IH"(1) b have f1: "frame (refs store (keys_of block)) w w1" by simp
  show ?case
  proof (cases r)
    case (Inl e)
    have "frame (refs store (concat (map keys_of (block # blocks)))) w w1"
      using f1 by (rule frame_mono) (auto simp: refs_def)
    with b Inl show ?thesis
      by simp
  next
    case (Inr child)
    obtain r2 w2 where b2: "build_blocks store blocks parent w1 = (r2, w2)"
      by (cases "build_blocks store blocks parent w1")
    from "5.IH"(2) [of r w1 child] b Inr b2
    have f2: "frame (refs store (concat (map keys_of blocks))) w1 w2" by simp
    have "frame (refs store (keys_of block) \<union> refs store (concat (map keys_of blocks))) w w2"
      using f1 f2 by (rule frame_trans)
    with b Inr b2 show ?thesis
      by (simp split: sum.splits)
  qed
qed


lemma hasOwnProperty_plain:
  "store ''hasOwnProperty'' = None \<Longrightarrow> hasOwnProperty store k = Inr (store k \<noteq> None)"
  by (simp add: hasOwnProperty_def)

lemma build_result:
  "store ''hasOwnProperty'' = None \<Longrightarrow> (\<And>k. table k = None \<longleftrightarrow> store k = None) \<Longrightarrow>
     fst (build store s parent w) = Inr (returned store s) \<and>
     logged (snd (build store s parent w)) = logged w @ map Warn (spec_warnings table parent s)"
  "store ''hasOwnProperty'' = None \<Longrightarrow> (\<And>k. table k = None \<longleftrightarrow> store k = None) \<Longrightarrow>
     fst (build_blocks store ss parent w) = Inr (map (returned store) ss) \<and>
     logged (snd (build_blocks store ss parent w)) =
       logged w @ map Warn (concat (map (spec_warnings table parent) ss))"
proof (induction store s parent w and store ss parent w rule: build_build_blocks.induct)
  case (1 store parent w)
  show ?case by (simp add: returned_def)
next
  case (2 store lead rest parent w)
  have h: "hasOwnProperty store (property_key lead) = Inr (store (property_key lead) \<noteq> None)"
    using "2.prems"(1) by (rule hasOwnProperty_plain)
  show ?case
  proof (cases "store (property_key lead)")
    case None
    with "2.prems"(2) [of "property_key lead"] have "table (property_key lead) = None" by simp
    with None h show ?thesis
      by (simp add: returned_def warn_def)
  next
    case (Some element)
    with "2.prems"(2) [of "property_key lead"] obtain d where d: "table (property_key lead) = Some d"
      by (cases "table (property_key lead)") auto
    obtain r w1 where b: "build_blocks store rest parent w = (r, w1)"
      by (cases "build_blocks store rest parent w")
    from "2.IH" [OF h Some "2.prems"] b
    have "r = Inr (map (returned store) rest)"
      "logged w1 = logged w @ map Warn (concat (map (spec_warnings table parent) rest))"
      by simp_all
    with h Some d b show ?thesis
      by (cases element) (simp_all add: returned_def set_children_def)
  qed
next
  case (3 store k parent w)
  have h: "hasOwnProperty store k = Inr (store k \<noteq> None)"
    using "3.prems"(1) by (rule hasOwnProperty_plain)
  show ?case
  proof (cases "store k")
    case None
    with "3.prems"(2) [of k] have "table k = None" by simp
    with None h show ?thesis
      by (simp add: returned_def warn_def)
  next
    case (Some element)
    with "3.prems"(2) [of k] obtain d where d: "table k = Some d"
      by (cases "table k") auto
    with h Some show ?thesis
      by (cases element) (simp_all add: returned_def set_children_def)
  qed
next
  case (4 store parent w)
  show ?case by simp
next
  case (5 store block blocks parent w)
  obtain r w1 where b: "build store block parent w = (r, w1)"
    by (cases "build store block parent w")
  from "5.IH"(1) [OF "5.prems"] b
  have r: "r = Inr (returned store block)"
    and l1: "logged w1 = logged w @ map Warn (spec_warnings table parent block)"
    by simp_all
  obtain r2 w2 where b2: "build_blocks store blocks parent w1 = (r2, w2)"
    by (cases "build_blocks store blocks parent w1")
  from "5.IH"(2) [OF b [symmetric] r "5.prems"] b2
  have "r2 = Inr (map (returned store) blocks)"
    "logged w2 = logged w1 @ map Warn (concat (map (spec_warnings table parent) blocks))"
    by simp_all
  with b r l1 b2 show ?case
    by simp
qed


lemma own_properties_children [simp]:
  "own_properties (d\<lparr>children := c\<rparr>) = own_properties d"
  by (simp add: own_properties_def)

lemma own_properties_truncate [simp]:
  "own_properties (document.truncate d) = own_properties d"
  by (simp add: own_properties_def document.truncate_def)

lemma documents_frame: "frame R w w' \<Longrightarrow> documents (heap w') store = documents (heap w) store"
  by (rule ext) (simp add: documents_def frame_def split: option.splits jsval.splits)

lemma document_store_frame:
  "frame R w w' \<Longrightarrow> document_store (heap w) store \<Longrightarrow> document_store (heap w') store"
  unfolding document_store_def frame_def by metis

lemma documents_None:
  "document_store h store \<Longrightarrow> documents h store k = None \<longleftrightarrow> store k = None"
  by (auto simp: documents_def document_store_def split: option.splits jsval.splits)

lemma documents_Some:
  "document_store h store \<Longrightarrow> documents h store k = Some d \<Longrightarrow>
     \<exists>r. store k = Some (Obj r) \<and> r < length h \<and> d = document.truncate (h ! r)"
  by (auto simp: documents_def document_store_def split: option.splits jsval.splits)

lemma refs_disjoint:
  assumes "document_store h store" and "set ks \<inter> set ks' = {}"
  shows "refs store ks \<inter> refs store ks' = {}"
proof -
  have False if "r \<in> refs store ks" "r \<in> refs store ks'" for r
  proof -
    from that obtain k k' where k: "k \<in> set ks" "store k = Some (Obj r)"
      "k' \<in> set ks'" "store k' = Some (Obj r)"
      by (auto simp: refs_def)
    from assms(1) have "\<forall>k k'. store k = store k' \<and> store k \<noteq> None \<longrightarrow> k = k'"
      unfolding document_store_def by blast
    with k(2,4) have "k = k'" by simp
    with k(1,3) assms(2) show False by blast
  qed
  then show ?thesis by blast
qed

lemma spec_build_None:
  "document_store h store \<Longrightarrow> spec_build (documents h store) s = None \<longleftrightarrow> returned store s = None"
proof (cases s)
  case (Key k)
  assume "document_store h store"
  from documents_None [OF this, of k] Key show ?thesis
    by (cases "documents h store k") (auto simp: returned_def)
next
  case (Arr blocks)
  assume d: "document_store h store"
  show ?thesis
  proof (cases blocks)
    case Nil
    with Arr show ?thesis by (simp add: returned_def)
  next
    case (Cons lead rest)
    from documents_None [OF d, of "property_key lead"] Arr Cons show ?thesis
      by (cases "documents h store (property_key lead)") (auto simp: returned_def)
  qed
qed

lemma build_walk:
  "store ''hasOwnProperty'' = None \<Longrightarrow> document_store (heap w) store \<Longrightarrow>
   distinct (keys_of s) \<Longrightarrow> spec_build (documents (heap w) store) s = Some t \<Longrightarrow>
   agree_on (refs store (keys_of s)) h (heap (snd (build store s parent w))) \<Longrightarrow>
   set stack \<inter> refs store (keys_of s) = {} \<Longrightarrow>
   (\<exists>v. returned store s = Some v \<and> walk h stack v = Inr (tree_json t))"
  "store ''hasOwnProperty'' = None \<Longrightarrow> document_store (heap w) store \<Longrightarrow>
   distinct (concat (map keys_of ss)) \<Longrightarrow>
   agree_on (refs store (concat (map keys_of ss))) h (heap (snd (build_blocks store ss parent w))) \<Longrightarrow>
   set stack \<inter> refs store (concat (map keys_of ss)) = {} \<Longrightarrow>
   walk_list h stack (map the (filter (\<lambda>child. child \<noteq> None) (map (returned store) ss))) =
     Inr (map tree_json (map the (filter (\<lambda>t. t \<noteq> None)
            (map (spec_build (documents (heap w) store)) ss))))"
proof (induction store s parent w and store ss parent w arbitrary: t h stack and h stack
    rule: build_build_blocks.induct)
  case (1 store parent w)
  then show ?case by simp
next
  case (2 store lead rest parent w)
  let ?k = "property_key lead"
  let ?T = "documents (heap w) store"
  have dom: "?T k = None \<longleftrightarrow> store k = None" for k
    using "2.prems"(2) by (rule documents_None)
  have hop: "hasOwnProperty store ?k = Inr (store ?k \<noteq> None)"
    using "2.prems"(1) by (rule hasOwnProperty_plain)
  from "2.prems"(4) obtain d where d: "?T ?k = Some d"
    and t: "t = Node d (map the (filter (\<lambda>t. t \<noteq> None) (map (spec_build ?T) rest)))"
    by (auto split: option.splits)
  from documents_Some [OF "2.prems"(2) d] obtain r0 where r0: "store ?k = Some (Obj r0)"
    "r0 < length (heap w)" "d = document.truncate (heap w ! r0)"
    by blast
  obtain r w1 where b: "build_blocks store rest parent w = (r, w1)"
    by (cases "build_blocks store rest parent w")
  from build_result(2) [where table = ?T, OF "2.prems"(1) dom, of rest parent w] b
  have r: "r = Inr (map (returned store) rest)" by simp
  have f1: "frame (refs store (concat (map keys_of rest))) w w1"
    using build_frame(2) [of store rest w parent] b by simp
  let ?cs = "map the (filter (\<lambda>child. child \<noteq> None) (map (returned store) rest))"
  have w': "snd (build store (Arr (lead # rest)) parent w) = set_children (Obj r0) ?cs w1"
    using hop r0 b r by simp
  have dis: "refs store [?k] \<inter> refs store (concat (map keys_of rest)) = {}"
    using "2.prems"(2,3) by (intro refs_disjoint) auto
  then have r0n: "r0 \<notin> refs store (concat (map keys_of rest))"
    using r0(1) by auto
  have len: "length (heap w1) = length (heap w)"
    using f1 by (simp add: frame_def)
  from "2.prems"(5) have ag: "length h = length (heap w1)"
    "h ! r0 = (heap w1 ! r0)\<lparr>children := Some ?cs\<rparr>"
    "\<And>r. r \<in> refs store (concat (map keys_of rest)) \<Longrightarrow> h ! r = heap w1 ! r"
    using r0 r0n len unfolding w'
    by (auto simp: agree_on_def heap_set_children nth_list_update)
  have ag1: "agree_on (refs store (concat (map keys_of rest))) h
      (heap (snd (build_blocks store rest parent w)))"
    using ag b by (simp add: agree_on_def)
  have st: "set (r0 # stack) \<inter> refs store (concat (map keys_of rest)) = {}"
    using "2.prems"(6) r0n by auto
  have "walk_list h (r0 # stack) ?cs =
      Inr (map tree_json (map the (filter (\<lambda>t. t \<noteq> None) (map (spec_build ?T) rest))))"
    using "2.prems"(3) by (intro "2.IH" [OF hop r0(1) "2.prems"(1,2) _ ag1 st]) simp
  moreover have "r0 \<notin> set stack"
    using "2.prems"(6) r0(1) by auto
  moreover have "own_properties (h ! r0) = own_properties d"
  proof -
    have "document.truncate (heap w1 ! r0) = document.truncate (heap w ! r0)"
      using f1 by (simp add: frame_def)
    then have "own_properties (document.truncate (heap w1 ! r0)) = own_properties d"
      using r0(3) by simp
    then show ?thesis
      using ag(2) by simp
  qed
  ultimately have "walk h stack (Obj r0) = Inr (tree_json t)"
    using ag(1,2) r0(2) len t by simp
  then show ?case
    using r0(1) by (simp add: returned_def)
next
  case (3 store k parent w)
  let ?T = "documents (heap w) store"
  have hop: "hasOwnProperty store k = Inr (store k \<noteq> None)"
    using "3.prems"(1) by (rule hasOwnProperty_plain)
  from "3.prems"(4) obtain d where d: "?T k = Some d" and t: "t = Node d []"
    by (auto split: option.splits)
  from documents_Some [OF "3.prems"(2) d] obtain r0 where r0: "store k = Some (Obj r0)"
    "r0 < length (heap w)" "d = document.truncate (heap w ! r0)"
    by blast
  have w': "snd (build store (Key k) parent w) = set_children (Obj r0) [] w"
    using hop r0 by simp
  from "3.prems"(5) have ag: "length h = length (heap w)"
    "h ! r0 = (heap w ! r0)\<lparr>children := Some []\<rparr>"
    using r0 unfolding w'
    by (auto simp: agree_on_def heap_set_children nth_list_update)
  have "r0 \<notin> set stack"
    using "3.prems"(6) r0(1) by auto
  moreover have "own_properties (h ! r0) = own_properties d"
  proof -
    have "own_properties (document.truncate (heap w ! r0)) = own_properties d"
      using r0(3) by simp
    then show ?thesis
      using ag(2) by simp
  qed
  ultimately have "walk h stack (Obj r0) = Inr (tree_json t)"
    using ag r0(2) t by simp
  then show ?case
    using r0(1) by (simp add: returned_def)
next
  case (4 store parent w)
  show ?case by simp
next
  case (5 store block blocks parent w)
  let ?T = "documents (heap w) store"
  have dom: "?T k = None \<longleftrightarrow> store k = None" for k
    using "5.prems"(2) by (rule documents_None)
  obtain r w1 where b: "build store block parent w = (r, w1)"
    by (cases "build store block parent w")
  from build_result(1) [where table = ?T, OF "5.prems"(1) dom, of block parent w] b
  have r: "r = Inr (returned store block)" by simp
  obtain r2 w2 where b2: "build_blocks store blocks parent w1 = (r2, w2)"
    by (cases "build_blocks store blocks parent w1")
  have f1: "frame (refs store (keys_of block)) w w1"
    using build_frame(1) [of store block w parent] b by simp
  have f2: "frame (refs store (concat (map keys_of blocks))) w1 w2"
    using build_frame(2) [of store blocks w1 parent] b2 by simp
  have dom1: "documents (heap w1) store k = None \<longleftrightarrow> store k = None" for k
    using dom documents_frame [OF f1, of store] by simp
  from build_result(2) [where table = "documents (heap w1) store", OF "5.prems"(1) dom1, of blocks parent w1] b2
  have r2: "r2 = Inr (map (returned store) blocks)" by simp
  have w': "snd (build_blocks store (block # blocks) parent w) = w2"
    using b r b2 r2 by simp
  have ds1: "document_store (heap w1) store"
    using f1 "5.prems"(2) by (rule document_store_frame)
  have T1: "documents (heap w1) store = ?T"
    using f1 by (rule documents_frame)
  have dis: "refs store (keys_of block) \<inter> refs store (concat (map keys_of blocks)) = {}"
    using "5.prems"(2,3) by (intro refs_disjoint) auto
  from "5.prems"(4) have agh: "length h = length (heap w2)"
    "\<And>r. r \<in> refs store (keys_of block) \<Longrightarrow> h ! r = heap w2 ! r"
    "\<And>r. r \<in> refs store (concat (map keys_of blocks)) \<Longrightarrow> h ! r = heap w2 ! r"
    unfolding w' by (auto simp: agree_on_def)
  have ag1: "agree_on (refs store (keys_of block)) h (heap (snd (build store block parent w)))"
  proof -
    have "heap w2 ! r = heap w1 ! r" if "r \<in> refs store (keys_of block)" for r
      using f2 that dis by (auto simp: frame_def)
    moreover have "length (heap w2) = length (heap w1)"
      using f2 by (simp add: frame_def)
    ultimately show ?thesis
      using agh b by (simp add: agree_on_def)
  qed
  have ag2: "agree_on (refs store (concat (map keys_of blocks))) h
      (heap (snd (build_blocks store blocks parent w1)))"
    using agh b2 by (simp add: agree_on_def)
  have st1: "set stack \<inter> refs store (keys_of block) = {}"
    and st2: "set stack \<inter> refs store (concat (map keys_of blocks)) = {}"
    using "5.prems"(5) by auto
  have tail: "walk_list h stack (map the (filter (\<lambda>child. child \<noteq> None) (map (returned store) blocks))) =
      Inr (map tree_json (map the (filter (\<lambda>t. t \<noteq> None) (map (spec_build ?T) blocks))))"
    using "5.IH"(2) [OF b [symmetric] r "5.prems"(1) ds1 _ ag2 st2] "5.prems"(3) T1 by simp
  show ?case
  proof (cases "spec_build ?T block")
    case None
    with spec_build_None [OF "5.prems"(2), of block] have "returned store block = None" by simp
    with None tail show ?thesis by simp
  next
    case (Some t)
    from "5.IH"(1) [OF "5.prems"(1,2) _ Some ag1 st1] "5.prems"(3)
    obtain v where "returned store block = Some v" "walk h stack v = Inr (tree_json t)"
      by auto
    with Some tail show ?thesis by simp
  qed
qed

text \<open>
  C1, as the code has it. For a store of documents without a key named
  \<^verbatim>\<open>hasOwnProperty\<close>: \<^verbatim>\<open>build\<close> returns \<^verbatim>\<open>null\<close> exactly when the reference
  definition gives nothing (the empty list, an absent scalar key, an absent first
  element) and otherwise the object \<^verbatim>\<open>store[k]\<close> of the key at the root; it logs the
  warnings of the reference definition; and when no key occurs twice in the Structure,
  the returned node read as a value, the way \<^verbatim>\<open>JSON.stringify\<close> walks it, is the node
  of the reference definition: the document with the recursive builds of the other
  elements as children, in their order, without the nulls.
\<close>

theorem build_refines_spec:
  assumes "store ''hasOwnProperty'' = None" and "document_store (heap w) store"
  shows "fst (build store s parent w) =
       Inr (if spec_build (documents (heap w) store) s = None then None else store (root_key s)) \<and>
     logged (snd (build store s parent w)) =
       logged w @ map Warn (spec_warnings (documents (heap w) store) parent s) \<and>
     (distinct (keys_of s) \<longrightarrow>
       (\<forall>t. spec_build (documents (heap w) store) s = Some t \<longrightarrow>
          (\<exists>v. fst (build store s parent w) = Inr (Some v) \<and>
               walk (heap (snd (build store s parent w))) [] v = Inr (tree_json t))))"
proof -
  let ?T = "documents (heap w) store"
  have dom: "?T k = None \<longleftrightarrow> store k = None" for k
    using assms(2) by (rule documents_None)
  have res: "fst (build store s parent w) = Inr (returned store s)"
    and lg: "logged (snd (build store s parent w)) = logged w @ map Warn (spec_warnings ?T parent s)"
    using build_result(1) [where table = ?T, OF assms(1) dom, of s parent w] by simp_all
  have "returned store s = (if spec_build ?T s = None then None else store (root_key s))"
    using spec_build_None [OF assms(2), of s] by (auto simp: returned_def)
  with res have r1: "fst (build store s parent w) =
      Inr (if spec_build ?T s = None then None else store (root_key s))"
    by simp
  have "\<exists>v. fst (build store s parent w) = Inr (Some v) \<and>
      walk (heap (snd (build store s parent w))) [] v = Inr (tree_json t)"
    if "distinct (keys_of s)" "spec_build ?T s = Some t" for t
  proof -
    have "agree_on (refs store (keys_of s)) (heap (snd (build store s parent w)))
        (heap (snd (build store s parent w)))"
      by (simp add: agree_on_def)
    from build_walk(1) [OF assms that this, of "[]"] res show ?thesis
      by auto
  qed
  with r1 lg show ?thesis
    by blast
qed

theorem build_refines_spec_witness:
  "abc_store ''hasOwnProperty'' = None \<and> document_store (heap abc_world) abc_store \<and>
   distinct (keys_of (Arr [Key ''a'', Arr [Key ''b'', Key ''c''], Key ''d''])) \<and>
   fst (build abc_store (Arr [Key ''a'', Arr [Key ''b'', Key ''c''], Key ''d'']) ''guide'' abc_world) =
     Inr (Some (Obj 0)) \<and>
   logged (snd (build abc_store (Arr [Key ''a'', Arr [Key ''b'', Key ''c''], Key ''d'']) ''guide''
       abc_world)) =
     [Warn ''|||| can not find child module d inside the guide module''] \<and>
   walk (heap (snd (build abc_store (Arr [Key ''a'', Arr [Key ''b'', Key ''c''], Key ''d'']) ''guide''
       abc_world))) [] (Obj 0) =
     Inr (tree_json (Node (abc_document ''a'') [Node (abc_document ''b'') [Node (abc_document ''c'') []]]))"
proof -
  have h: "abc_store ''hasOwnProperty'' = None"
    by (simp add: abc_store_def)
  have d: "document_store (heap abc_world) abc_store"
    by (auto simp: document_store_def abc_store_def abc_world_def split: if_splits)
  have k: "distinct (keys_of (Arr [Key ''a'', Arr [Key ''b'', Key ''c''], Key ''d'']))"
    by simp
  have s: "spec_build (documents (heap abc_world) abc_store)
      (Arr [Key ''a'', Arr [Key ''b'', Key ''c''], Key ''d'']) =
      Some (Node (abc_document ''a'') [Node (abc_document ''b'') [Node (abc_document ''c'') []]])"
    by (simp add: documents_def abc_store_def abc_world_def abc_document_def document.defs obj.defs)
  have g: "spec_warnings (documents (heap abc_world) abc_store) ''guide''
      (Arr [Key ''a'', Arr [Key ''b'', Key ''c''], Key ''d'']) =
      [''|||| can not find child module d inside the guide module'']"
    by (simp add: documents_def abc_store_def abc_world_def missing_child_def)
  have r: "abc_store (root_key (Arr [Key ''a'', Arr [Key ''b'', Key ''c''], Key ''d''])) = Some (Obj 0)"
    by (simp add: abc_store_def)
  have l: "logged abc_world = []"
    by (simp add: abc_world_def)
  show ?thesis
    using build_refines_spec [OF h d, of "Arr [Key ''a'', Arr [Key ''b'', Key ''c''], Key ''d'']" "''guide''"]
      h d k
    unfolding s g r l by (auto simp del: build.simps keys_of.simps)
qed

text \<open>
  C1 as stated fails. A key that occurs twice names one object, and \<^verbatim>\<open>children\<close> is
  assigned on that object: in \<^verbatim>\<open>["a", ["b", "c"], "b"]\<close> the second build of
  \<^verbatim>\<open>b\<close> empties the children of the first, where the reference definition keeps
  \<^verbatim>\<open>c\<close>; in \<^verbatim>\<open>["a", "a"]\<close> the node becomes its own child, which no tree is (and
  which \<^verbatim>\<open>JSON.stringify\<close> refuses). A store with a key \<^verbatim>\<open>hasOwnProperty\<close> makes
  \<^verbatim>\<open>build\<close> raise where the reference definition returns the document.
\<close>

theorem build_repeated_key:
  "spec_build (documents (heap abc_world) abc_store) (Arr [Key ''a'', Arr [Key ''b'', Key ''c''], Key ''b'']) =
     Some (Node (abc_document ''a'')
             [Node (abc_document ''b'') [Node (abc_document ''c'') []], Node (abc_document ''b'') []]) \<and>
   walk (heap (snd (build abc_store (Arr [Key ''a'', Arr [Key ''b'', Key ''c''], Key ''b'']) ''guide''
       abc_world))) [] (Obj 0) =
     Inr (tree_json (Node (abc_document ''a'')
                       [Node (abc_document ''b'') [], Node (abc_document ''b'') []])) \<and>
   tree_json (Node (abc_document ''a'') [Node (abc_document ''b'') [], Node (abc_document ''b'') []]) \<noteq>
     tree_json (Node (abc_document ''a'')
                  [Node (abc_document ''b'') [Node (abc_document ''c'') []], Node (abc_document ''b'') []]) \<and>
   spec_build (documents (heap abc_world) abc_store) (Arr [Key ''a'', Key ''a'']) =
     Some (Node (abc_document ''a'') [Node (abc_document ''a'') []]) \<and>
   walk (heap (snd (build abc_store (Arr [Key ''a'', Key ''a'']) ''guide'' abc_world))) [] (Obj 0) =
     Inl TypeError \<and>
   fst (build (abc_store(''hasOwnProperty'' \<mapsto> Obj 1)) (Key ''a'') ''guide'' abc_world) = Inl TypeError"
  by code_simp

section \<open>The bundle of the module \<^verbatim>\<open>guide\<close>\<close>

lemma main2_effects:
  "effects (main2 env opts w) =
     effects (snd (snd (run2 env opts (info (''will watch '' @ directory opts @ '' for changes'') w))))"
  by (simp add: main2_def split: prod.splits sum.splits)

lemma run2_effects:
  assumes "confirm opts" and "make_target2 env opts w0 = (Inr (), w1)"
  shows "effects (snd (snd (run2 env opts w0))) = effects (snd (crawl resolve2 emit2 env opts w1))"
  using run2_confirmed [OF assms(1), of env w0] by (simp add: assms(2))

text \<open>
  C2, as the code has it. For the root \<^verbatim>\<open>/docs\<close> with the module \<^verbatim>\<open>guide\<close>, the
  manifest \<^verbatim>\<open>["intro", ["advanced", "tips"]]\<close> and the three content files in a content
  directory of the module, the Emitter builds every element of the manifest's array on
  its own: \<^verbatim>\<open>guide.json\<close> is an array of two root nodes, \<^verbatim>\<open>intro\<close> without
  children and \<^verbatim>\<open>advanced\<close> with the child \<^verbatim>\<open>tips\<close> (the two-level variant adds the
  meta file). With the content files beside the manifest, the files are passed over (the
  guard only enters directories) and \<^verbatim>\<open>guide.json\<close> is the empty array.
\<close>

theorem guide_bundle_is_a_forest:
  "effects (main1 (example_env guide_tree) example_options empty_world) =
     [MakeDir ''/out'',
      WriteFile ''/out/guide.json''
        (JSON_stringify 2 (JArray
           [tree_json (Node \<lparr>doc_id = ''intro'', title = ''Intro'', about = [],
                             content = ''<p>Welcome</p>''\<rparr> []),
            tree_json (Node \<lparr>doc_id = ''advanced'', title = ''Advanced'', about = [],
                             content = ''<p>More</p>''\<rparr>
                         [Node \<lparr>doc_id = ''tips'', title = ''Tips'', about = [],
                                content = ''<p>Hints</p>''\<rparr> []])]))] \<and>
   effects (main2 (example_env guide_tree) example_options empty_world) =
     [MakeDir ''/out'',
      WriteFile ''/out/guide.json''
        (JSON_stringify 2 (JArray
           [tree_json (Node \<lparr>doc_id = ''intro'', title = ''Intro'', about = [],
                             content = ''<p>Welcome</p>''\<rparr> []),
            tree_json (Node \<lparr>doc_id = ''advanced'', title = ''Advanced'', about = [],
                             content = ''<p>More</p>''\<rparr>
                         [Node \<lparr>doc_id = ''tips'', title = ''Tips'', about = [],
                                content = ''<p>Hints</p>''\<rparr> []])])),
      WriteFile ''/out/guide.meta.json'' ''{}''] \<and>
   effects (main1 (example_env flat_tree) example_options empty_world) =
     [MakeDir ''/out'', WriteFile ''/out/guide.json'' ''[]'']"
proof -
  have o: "confirm example_options"
    by (simp add: example_options_def)
  have m: "make_target2 (example_env guide_tree) example_options
      (info (''will watch '' @ directory example_options @ '' for changes'') empty_world) =
      (Inr (), \<lparr>heap = [], logged = [Info ''will watch /docs for changes''],
                effects = [MakeDir ''/out'']\<rparr>)"
    by code_simp
  have c: "effects (snd (crawl resolve2 emit2 (example_env guide_tree) example_options
      \<lparr>heap = [], logged = [Info ''will watch /docs for changes''], effects = [MakeDir ''/out'']\<rparr>)) =
     [MakeDir ''/out'',
      WriteFile ''/out/guide.json''
        (JSON_stringify 2 (JArray
           [tree_json (Node \<lparr>doc_id = ''intro'', title = ''Intro'', about = [],
                             content = ''<p>Welcome</p>''\<rparr> []),
            tree_json (Node \<lparr>doc_id = ''advanced'', title = ''Advanced'', about = [],
                             content = ''<p>More</p>''\<rparr>
                         [Node \<lparr>doc_id = ''tips'', title = ''Tips'', about = [],
                                content = ''<p>Hints</p>''\<rparr> []])])),
      WriteFile ''/out/guide.meta.json'' ''{}'']"
    by code_simp
  have a: "effects (main1 (example_env guide_tree) example_options empty_world) =
     [MakeDir ''/out'',
      WriteFile ''/out/guide.json''
        (JSON_stringify 2 (JArray
           [tree_json (Node \<lparr>doc_id = ''intro'', title = ''Intro'', about = [],
                             content = ''<p>Welcome</p>''\<rparr> []),
            tree_json (Node \<lparr>doc_id = ''advanced'', title = ''Advanced'', about = [],
                             content = ''<p>More</p>''\<rparr>
                         [Node \<lparr>doc_id = ''tips'', title = ''Tips'', about = [],
                                content = ''<p>Hints</p>''\<rparr> []])]))]"
    by code_simp
  have f: "effects (main1 (example_env flat_tree) example_options empty_world) =
     [MakeDir ''/out'', WriteFile ''/out/guide.json'' ''[]'']"
    by code_simp
  have b: "effects (main2 (example_env guide_tree) example_options empty_world) =
      effects (snd (crawl resolve2 emit2 (example_env guide_tree) example_options
        \<lparr>heap = [], logged = [Info ''will watch /docs for changes''], effects = [MakeDir ''/out'']\<rparr>))"
    unfolding main2_effects by (rule run2_effects [OF o m])
  show ?thesis
    unfolding b c a f by simp
qed

text \<open>
  C2 as stated fails: the program itself counts two sections, and the bundle with the
  single root \<^verbatim>\<open>intro\<close> over \<^verbatim>\<open>advanced\<close> over \<^verbatim>\<open>tips\<close> is not what is written, in
  either variant.
\<close>

theorem guide_bundle_not_single_rooted:
  "Info ''|||| 2 sections emitted at /out/guide.json'' \<in>
     set (logged (main1 (example_env guide_tree) example_options empty_world)) \<and>
   WriteFile ''/out/guide.json''
      (JSON_stringify 2 (JArray
         [tree_json (Node \<lparr>doc_id = ''intro'', title = ''Intro'', about = [],
                           content = ''<p>Welcome</p>''\<rparr>
                       [Node \<lparr>doc_id = ''advanced'', title = ''Advanced'', about = [],
                              content = ''<p>More</p>''\<rparr>
                          [Node \<lparr>doc_id = ''tips'', title = ''Tips'', about = [],
                                 content = ''<p>Hints</p>''\<rparr> []]])]))
     \<notin> set (effects (main1 (example_env guide_tree) example_options empty_world)) \<and>
   WriteFile ''/out/guide.json''
      (JSON_stringify 2 (JArray
         [tree_json (Node \<lparr>doc_id = ''intro'', title = ''Intro'', about = [],
                           content = ''<p>Welcome</p>''\<rparr>
                       [Node \<lparr>doc_id = ''advanced'', title = ''Advanced'', about = [],
                              content = ''<p>More</p>''\<rparr>
                          [Node \<lparr>doc_id = ''tips'', title = ''Tips'', about = [],
                                 content = ''<p>Hints</p>''\<rparr> []]])]))
     \<notin> set (effects (snd (crawl resolve2 emit2 (example_env guide_tree) example_options empty_world)))"
  by code_simp

end
